theory Spec2Isabelle
  imports Main
begin

section \<open>Exceptions and effectful computations\<close>

text \<open>
  The module \<^verbatim>\<open>bokeh/io/export.py\<close> is a sequence of calls into a browser driver, the
  file system and an image library. Every function of the module is modelled as a
  function from the state of the world to a result and the new state; a Python
  exception is the result \<open>Inl e\<close>, a normal return of \<open>x\<close> is \<open>Inr x\<close>.
\<close>

datatype exn =
    ValueError string
  | RuntimeError string
  | TypeError
  | OSError
  | TimeoutException
  | NoSuchElementException
  | WebDriverException
  | OtherException string

type_synonym ('w, 'a) io = "'w \<Rightarrow> (exn + 'a) \<times> 'w"

definition return_io :: "'a \<Rightarrow> ('w, 'a) io" where
  "return_io x = (\<lambda>w. (Inr x, w))"

definition raise_io :: "exn \<Rightarrow> ('w, 'a) io" where
  "raise_io e = (\<lambda>w. (Inl e, w))"

text \<open>Sequencing of two statements: an exception of the first skips the second.\<close>

definition bind_io :: "('w, 'a) io \<Rightarrow> ('a \<Rightarrow> ('w, 'b) io) \<Rightarrow> ('w, 'b) io" where
  "bind_io m f = (\<lambda>w. case m w of (Inl e, w') \<Rightarrow> (Inl e, w') | (Inr x, w') \<Rightarrow> f x w')"

text \<open>
  \<^verbatim>\<open>try: m except E: h\<close>, where \<open>handled\<close> says which exceptions the clause \<open>E\<close>
  matches; any other exception propagates.
\<close>

definition try_except :: "('w, 'a) io \<Rightarrow> (exn \<Rightarrow> bool) \<Rightarrow> (exn \<Rightarrow> ('w, 'a) io) \<Rightarrow> ('w, 'a) io" where
  "try_except m handled h =
     (\<lambda>w. case m w of
        (Inl e, w') \<Rightarrow> if handled e then h e w' else (Inl e, w')
      | (Inr x, w') \<Rightarrow> (Inr x, w'))"

text \<open>
  \<^verbatim>\<open>try: m finally: fin\<close>. The \<open>finally\<close> block runs on every exit of \<open>m\<close>; an
  exception of the block replaces the outcome of \<open>m\<close>, otherwise the outcome of \<open>m\<close>
  (value or exception) stands.
\<close>

definition try_finally :: "('w, 'a) io \<Rightarrow> ('w, unit) io \<Rightarrow> ('w, 'a) io" where
  "try_finally m fin =
     (\<lambda>w. case m w of (r, w') \<Rightarrow>
        (case fin w' of (Inl e, w'') \<Rightarrow> (Inl e, w'') | (Inr _, w'') \<Rightarrow> (r, w'')))"

section \<open>The world: files, logs, clock, browser and the layout object\<close>

text \<open>
  A \<open>Plot\<close> has the two size fields the module writes; \<open>other_props\<close> stands for all
  its other fields. A layout that is not a \<open>Plot\<close> (a row, a column, a widget, a
  document) is opaque.
\<close>

record 'x Plot =
  plot_height :: "int option"
  plot_width :: "int option"
  other_props :: 'x

datatype 'x layout = PlotObj "'x Plot" | NonPlot 'x

text \<open>An entry of the browser's console log, as selenium returns it.\<close>

record log_entry =
  level :: string
  message :: string

text \<open>A decoded image (\<^verbatim>\<open>PIL.Image.Image\<close>).\<close>

record Image =
  img_width :: nat
  img_height :: nat
  img_pixels :: string

text \<open>The JavaScript snippets the module sends to the browser.\<close>

datatype script =
    IS_BOKEH_LOADED
  | WAIT_SCRIPT
  | IS_BOKEH_RENDER_COMPLETE
  | SVG_SCRIPT
  | CALCULATE_WINDOW_SIZE

text \<open>
  What the module does to its collaborators, in order: each call of a driver method
  and each \<^verbatim>\<open>time.sleep\<close> of the polling loop is recorded in \<open>events\<close>.
\<close>

datatype event =
    MaximizeWindow
  | Get string
  | ExecuteScript script
  | GetLog string
  | GetScreenshotAsPng
  | SetWindowSize int int
  | Sleep

text \<open>
  \<open>files\<close> maps a path to the content of the file there, \<open>writes\<close> lists every
  completed write in order, \<open>log_records\<close> holds the messages given to
  \<^verbatim>\<open>log.warning\<close> and \<open>py_warnings\<close> those given to \<^verbatim>\<open>warnings.warn\<close>. \<open>browser\<close>
  is the state of the driven browser and \<open>layout\<close> the object that \<^verbatim>\<open>obj\<close> refers to.

  \<open>clock\<close> is what \<^verbatim>\<open>time.time()\<close> returns, in milliseconds; it is read only by the
  polling loop. The clock advances while a driver method runs and while the module
  sleeps: \<open>latency w k\<close> is the number of milliseconds that the call recorded as event
  number \<open>k\<close> takes, for a driver method the time until it answers, for a sleep the
  time by which it overruns. Nothing is assumed about these numbers.
\<close>

record ('d, 'x) world =
  files :: "string \<rightharpoonup> string"
  open_fds :: "nat set"
  writes :: "(string \<times> string) list"
  log_records :: "string list"
  py_warnings :: "string list"
  clock :: int
  latency :: "nat \<Rightarrow> nat"
  events :: "event list"
  browser :: 'd
  layout :: "'x layout"

text \<open>
  A selenium driver: each method acts on the browser's state and may raise. The
  three scripts whose value the module reads are typed by what their text returns:
  a boolean, a list of serialized SVG strings, a pair of numbers.
\<close>

record 'd WebDriver =
  maximize_window :: "'d \<Rightarrow> (exn + unit) \<times> 'd"
  get_url :: "string \<Rightarrow> 'd \<Rightarrow> (exn + unit) \<times> 'd"
  is_bokeh_loaded_js :: "'d \<Rightarrow> (exn + bool) \<times> 'd"
  wait_script_js :: "'d \<Rightarrow> (exn + unit) \<times> 'd"
  is_bokeh_render_complete_js :: "'d \<Rightarrow> (exn + bool) \<times> 'd"
  svg_script_js :: "'d \<Rightarrow> (exn + string list) \<times> 'd"
  calculate_window_size_js :: "'d \<Rightarrow> (exn + int \<times> int) \<times> 'd"
  get_log :: "string \<Rightarrow> 'd \<Rightarrow> (exn + log_entry list) \<times> 'd"
  screenshot_png :: "'d \<Rightarrow> (exn + string) \<times> 'd"
  set_window_size :: "int \<Rightarrow> int \<Rightarrow> 'd \<Rightarrow> (exn + unit) \<times> 'd"

text \<open>
  The collaborators that are not in this file, as parameters: \<^verbatim>\<open>default_filename\<close>
  of \<^verbatim>\<open>bokeh.io.util\<close>, \<^verbatim>\<open>file_html\<close> of \<^verbatim>\<open>bokeh.embed\<close>,
  \<^verbatim>\<open>webdriver_control.get\<close> of \<^verbatim>\<open>bokeh.io.webdriver\<close>, the image library PIL, and the
  operating system. Of PIL: the decoder \<open>Image_open\<close>; \<open>image_format\<close>, the format
  that \<^verbatim>\<open>Image.save\<close> picks for a file name from its extension, if it knows the
  extension; and \<open>image_encode\<close>, the encoder of a format, which may raise. Of the
  operating system: the working directory (\<open>cwd\<close> is its path after the leading
  slash), the (descriptor, path) pairs \<^verbatim>\<open>mkstemp\<close> may try, and which paths it lets
  the process open for writing or unlink.
\<close>

record ('d, 'x) env =
  default_filename :: "string \<Rightarrow> string"
  file_html :: "'x layout \<Rightarrow> exn + string"
  webdriver_control_get :: "exn + 'd WebDriver"
  Image_open :: "string \<Rightarrow> exn + Image"
  image_format :: "string \<Rightarrow> string option"
  image_encode :: "string \<Rightarrow> Image \<Rightarrow> exn + string"
  cwd :: string
  mkstemp_candidates :: "string \<Rightarrow> string \<Rightarrow> (nat \<times> string) list"
  writable :: "string \<Rightarrow> bool"
  removable :: "string \<Rightarrow> bool"

subsection \<open>Logging\<close>

definition log_warning :: "string \<Rightarrow> (('d, 'x) world, unit) io" where
  "log_warning msg = (\<lambda>w. (Inr (), w\<lparr>log_records := log_records w @ [msg]\<rparr>))"

definition warnings_warn :: "string \<Rightarrow> (('d, 'x) world, unit) io" where
  "warnings_warn msg = (\<lambda>w. (Inr (), w\<lparr>py_warnings := py_warnings w @ [msg]\<rparr>))"

subsection \<open>Operating system calls\<close>

text \<open>
  \<^verbatim>\<open>mkstemp(prefix, suffix)\<close> creates an empty file under the first candidate name
  that does not exist yet and returns its open descriptor and path; it raises
  \<^verbatim>\<open>OSError\<close> when it finds none.
\<close>

definition mkstemp :: "('d, 'x) env \<Rightarrow> string \<Rightarrow> string \<Rightarrow> (('d, 'x) world, nat \<times> string) io" where
  "mkstemp E pre suf =
     (\<lambda>w. case List.find (\<lambda>(n, p). files w p = None \<and> n \<notin> open_fds w) (mkstemp_candidates E pre suf) of
        None \<Rightarrow> (Inl OSError, w)
      | Some (n, p) \<Rightarrow> (Inr (n, p), w\<lparr>files := (files w)(p \<mapsto> []), open_fds := insert n (open_fds w)\<rparr>))"

definition os_close :: "nat \<Rightarrow> (('d, 'x) world, unit) io" where
  "os_close n =
     (\<lambda>w. if n \<in> open_fds w then (Inr (), w\<lparr>open_fds := open_fds w - {n}\<rparr>) else (Inl OSError, w))"

definition os_unlink :: "('d, 'x) env \<Rightarrow> string \<Rightarrow> (('d, 'x) world, unit) io" where
  "os_unlink E p =
     (\<lambda>w. if files w p \<noteq> None \<and> removable E p
           then (Inr (), w\<lparr>files := (files w)(p := None)\<rparr>)
           else (Inl OSError, w))"

text \<open>
  Opening a path for writing fails with an \<^verbatim>\<open>OSError\<close> when the path is empty, when
  it ends with a slash (it names a directory), and when the operating system refuses
  it.
\<close>

definition can_open :: "('d, 'x) env \<Rightarrow> string \<Rightarrow> bool" where
  "can_open E p = (p \<noteq> [] \<and> last p \<noteq> CHR ''/'' \<and> writable E p)"

text \<open>\<^verbatim>\<open>with io.open(p, mode="w", encoding="utf-8") as f: f.write(s)\<close>\<close>

definition write_file :: "('d, 'x) env \<Rightarrow> string \<Rightarrow> string \<Rightarrow> (('d, 'x) world, unit) io" where
  "write_file E p s =
     (\<lambda>w. if can_open E p
           then (Inr (), w\<lparr>files := (files w)(p \<mapsto> s), writes := writes w @ [(p, s)]\<rparr>)
           else (Inl OSError, w))"

text \<open>
  \<^verbatim>\<open>image.save(filename)\<close>: PIL looks up the format for the extension of the name and
  raises \<^verbatim>\<open>ValueError\<close> for an extension it does not know; then it opens the file for
  writing, which creates or empties it, and runs the encoder of the format on the
  open file. When the encoder raises, the file stays as the opening has left it.
\<close>

definition Image_save :: "('d, 'x) env \<Rightarrow> Image \<Rightarrow> string \<Rightarrow> (('d, 'x) world, unit) io" where
  "Image_save E img filename =
     (case image_format E filename of
        None \<Rightarrow> raise_io (ValueError ''unknown file extension'')
      | Some fmt \<Rightarrow>
          (\<lambda>w. if \<not> can_open E filename then (Inl OSError, w)
                else (case image_encode E fmt img of
                        Inl e \<Rightarrow> (Inl e, w\<lparr>files := (files w)(filename \<mapsto> [])\<rparr>)
                      | Inr data \<Rightarrow> write_file E filename data w)))"

subsection \<open>Strings and POSIX paths\<close>

text \<open>\<^verbatim>\<open>s.find(sub)\<close>: the lowest index at which \<open>sub\<close> occurs in \<open>s\<close>, or \<open>-1\<close>.\<close>

fun find_from :: "string \<Rightarrow> string \<Rightarrow> nat \<Rightarrow> int" where
  "find_from sub [] i = (if sub = [] then int i else - 1)"
| "find_from sub (c # cs) i =
     (if take (length sub) (c # cs) = sub then int i else find_from sub cs (Suc i))"

definition py_find :: "string \<Rightarrow> string \<Rightarrow> int" where
  "py_find s sub = find_from sub s 0"

text \<open>The slices \<^verbatim>\<open>s[:k]\<close> and \<^verbatim>\<open>s[k:]\<close>; a negative \<open>k\<close> counts from the end.\<close>

definition slice_to :: "string \<Rightarrow> int \<Rightarrow> string" where
  "slice_to s k = (if k < 0 then take (nat (int (length s) + k)) s else take (nat k) s)"

definition slice_from :: "string \<Rightarrow> int \<Rightarrow> string" where
  "slice_from s k = (if k < 0 then drop (nat (int (length s) + k)) s else drop (nat k) s)"

text \<open>\<^verbatim>\<open>"{}".format(i)\<close> for a natural number: its decimal digits.\<close>

fun str_nat :: "nat \<Rightarrow> string" where
  "str_nat n =
     (if n < 10 then [''0123456789'' ! n]
      else str_nat (n div 10) @ [''0123456789'' ! (n mod 10)])"

text \<open>
  \<^verbatim>\<open>os.path\<close> on a POSIX system (\<^verbatim>\<open>posixpath\<close>): \<open>isabs\<close>, \<open>join\<close>, \<open>normpath\<close> and
  \<open>abspath\<close>, the latter relative to the working directory.
\<close>

definition isabs :: "string \<Rightarrow> bool" where
  "isabs s = (case s of [] \<Rightarrow> False | c # _ \<Rightarrow> c = CHR ''/'')"

definition join :: "string \<Rightarrow> string \<Rightarrow> string" where
  "join a b =
     (if isabs b then b
      else if a = [] \<or> last a = CHR ''/'' then a @ b
      else a @ ''/'' @ b)"

fun split_sep :: "char \<Rightarrow> string \<Rightarrow> string list" where
  "split_sep sep [] = [[]]"
| "split_sep sep (c # cs) =
     (if c = sep then [] # split_sep sep cs
      else (case split_sep sep cs of [] \<Rightarrow> [[c]] | x # xs \<Rightarrow> (c # x) # xs))"

fun join_sep :: "string \<Rightarrow> string list \<Rightarrow> string" where
  "join_sep sep [] = []"
| "join_sep sep [x] = x"
| "join_sep sep (x # y # zs) = x @ sep @ join_sep sep (y # zs)"

definition norm_step :: "nat \<Rightarrow> string list \<Rightarrow> string \<Rightarrow> string list" where
  "norm_step initial_slashes new_comps seg =
     (if seg = [] \<or> seg = ''.'' then new_comps
      else if seg \<noteq> ''..'' \<or> (initial_slashes = 0 \<and> new_comps = [])
              \<or> (new_comps \<noteq> [] \<and> last new_comps = ''..'')
           then new_comps @ [seg]
      else if new_comps \<noteq> [] then butlast new_comps
      else new_comps)"

definition normpath :: "string \<Rightarrow> string" where
  "normpath p =
     (if p = [] then ''.''
      else
        let initial_slashes =
              (if isabs p then (if take 2 p = ''//'' \<and> take 3 p \<noteq> ''///'' then 2 else 1) else 0);
            comps = foldl (norm_step initial_slashes) [] (split_sep CHR ''/'' p);
            q = replicate initial_slashes CHR ''/'' @ join_sep ''/'' comps
        in if q = [] then ''.'' else q)"

text \<open>\<^verbatim>\<open>os.getcwd()\<close> returns an absolute path.\<close>

definition getcwd :: "('d, 'x) env \<Rightarrow> string" where
  "getcwd E = CHR ''/'' # cwd E"

definition abspath :: "('d, 'x) env \<Rightarrow> string \<Rightarrow> string" where
  "abspath E p = normpath (if isabs p then p else join (getcwd E) p)"

section \<open>The browser driver\<close>

text \<open>
  A call of a driver method: it is recorded, acts on the browser's state and takes
  its time.
\<close>

definition driver_call :: "event \<Rightarrow> ('d \<Rightarrow> (exn + 'a) \<times> 'd) \<Rightarrow> (('d, 'x) world, 'a) io" where
  "driver_call ev op =
     (\<lambda>w. case op (browser w) of (r, d') \<Rightarrow>
        (r, w\<lparr>events := events w @ [ev], browser := d',
              clock := clock w + int (latency w (length (events w)))\<rparr>))"

definition execute_script :: "script \<Rightarrow> ('d \<Rightarrow> (exn + 'a) \<times> 'd) \<Rightarrow> (('d, 'x) world, 'a) io" where
  "execute_script s op = driver_call (ExecuteScript s) op"

text \<open>\<^verbatim>\<open>time.sleep(0.1)\<close> suspends the caller for 100 milliseconds or longer.\<close>

definition time_sleep :: "(('d, 'x) world, unit) io" where
  "time_sleep =
     (\<lambda>w. (Inr (), w\<lparr>clock := clock w + 100 + int (latency w (length (events w))),
                      events := events w @ [Sleep]\<rparr>))"

text \<open>
  The loop of selenium's \<^verbatim>\<open>WebDriverWait.until(method)\<close>, where \<open>method\<close> runs the
  script \<open>s\<close>: call the method; return its value if it is true; an exception other
  than the ignored \<^verbatim>\<open>NoSuchElementException\<close> propagates; otherwise sleep for the
  polling interval, and stop with \<^verbatim>\<open>TimeoutException\<close> when the clock has passed
  \<open>end_time\<close> after the sleep.
\<close>

function until :: "int \<Rightarrow> script \<Rightarrow> ('d \<Rightarrow> (exn + bool) \<times> 'd) \<Rightarrow> (('d, 'x) world, bool) io" where
  "until end_time s method w =
     (case execute_script s method w of (r, w1) \<Rightarrow>
        if r = Inr True then (Inr True, w1)
        else if r \<noteq> Inr False \<and> r \<noteq> Inl NoSuchElementException then (r, w1)
        else (case time_sleep w1 of (_, w2) \<Rightarrow>
          if clock w2 > end_time then (Inl TimeoutException, w2)
          else until end_time s method w2))"
  by pat_completeness auto
termination
  by (relation "measure (\<lambda>(end_time, s, method, w). nat (end_time + 1 - clock w))")
     (auto simp: execute_script_def driver_call_def time_sleep_def split: prod.splits)

declare until.simps [simp del]

text \<open>
  \<^verbatim>\<open>WebDriverWait(driver, timeout, poll_frequency=0.1).until(method)\<close>: the end time
  is \<open>timeout\<close> seconds after the time at which \<^verbatim>\<open>until\<close> is entered.
\<close>

definition WebDriverWait_until :: "int \<Rightarrow> script \<Rightarrow> ('d \<Rightarrow> (exn + bool) \<times> 'd) \<Rightarrow> (('d, 'x) world, bool) io" where
  "WebDriverWait_until timeout s method = (\<lambda>w. until (clock w + 1000 * timeout) s method w)"

section \<open>The module\<close>

text \<open>The texts of the module's log messages and of its \<^verbatim>\<open>RuntimeError\<close>.\<close>

definition CONSOLE_WARNING :: string where
  "CONSOLE_WARNING = ''There were browser warnings and/or errors that may have affected your export''"

definition NOT_LOADED_MESSAGE :: string where
  "NOT_LOADED_MESSAGE = ''Bokeh was not loaded in time. Something may have gone wrong.''"

definition RENDER_TIMEOUT_WARNING :: string where
  "RENDER_TIMEOUT_WARNING =
     ''The webdriver raised a TimeoutException while waiting for '' @
     ''a 'bokeh:idle' event to signify that the layout has rendered. '' @
     ''Something may have gone wrong.''"

definition NO_SVG_WARNING :: string where
  "NO_SVG_WARNING = ''No SVG Plots were found.''"

subsection \<open>Private API\<close>

fun log_each :: "string list \<Rightarrow> (('d, 'x) world, unit) io" where
  "log_each [] = return_io ()"
| "log_each (m # ms) = bind_io (log_warning m) (\<lambda>_. log_each ms)"

definition log_console :: "'d WebDriver \<Rightarrow> (('d, 'x) world, unit) io" where
  "log_console driver =
     bind_io (driver_call (GetLog ''browser'') (get_log driver ''browser'')) (\<lambda>logs.
       let messages = map message (filter (\<lambda>l. level l \<in> {''WARNING'', ''ERROR'', ''SEVERE''}) logs) in
       if length messages > 0
       then bind_io (log_warning CONSOLE_WARNING) (\<lambda>_. log_each messages)
       else return_io ())"

definition maximize_viewport :: "'d WebDriver \<Rightarrow> (('d, 'x) world, unit) io" where
  "maximize_viewport web_driver =
     bind_io (execute_script CALCULATE_WINDOW_SIZE (calculate_window_size_js web_driver)) (\<lambda>(width, height).
       driver_call (SetWindowSize width height) (set_window_size web_driver width height))"

record TempFile =
  fd :: "nat option"
  path :: "string option"
  closed :: bool

definition TempFile_init :: "('d, 'x) env \<Rightarrow> string \<Rightarrow> string \<Rightarrow> (('d, 'x) world, TempFile) io" where
  "TempFile_init E pre suf =
     bind_io (mkstemp E pre suf) (\<lambda>(n, p). return_io \<lparr>fd = Some n, path = Some p, closed = False\<rparr>)"

text \<open>
  \<^verbatim>\<open>close\<close> returns the object as it has left it. An \<^verbatim>\<open>OSError\<close> of \<^verbatim>\<open>os.close\<close> or of
  \<^verbatim>\<open>os.unlink\<close> is caught and dropped.
\<close>

definition TempFile_close :: "('d, 'x) env \<Rightarrow> TempFile \<Rightarrow> (('d, 'x) world, TempFile) io" where
  "TempFile_close E self =
     (if closed self then return_io self
      else
        bind_io (try_except
                   (case fd self of None \<Rightarrow> raise_io TypeError | Some n \<Rightarrow> os_close n)
                   (\<lambda>e. e = OSError) (\<lambda>_. return_io ())) (\<lambda>_.
        bind_io (try_except
                   (case path self of None \<Rightarrow> raise_io TypeError | Some p \<Rightarrow> os_unlink E p)
                   (\<lambda>e. e = OSError) (\<lambda>_. return_io ())) (\<lambda>_.
        return_io (self\<lparr>fd := None, path := None, closed := True\<rparr>))))"

definition TempFile_exit :: "('d, 'x) env \<Rightarrow> TempFile \<Rightarrow> (('d, 'x) world, unit) io" where
  "TempFile_exit E self = bind_io (TempFile_close E self) (\<lambda>_. return_io ())"

text \<open>Reading \<^verbatim>\<open>tmp.path\<close> where a string is needed.\<close>

definition TempFile_path :: "TempFile \<Rightarrow> ('w, string) io" where
  "TempFile_path tmp = (case path tmp of None \<Rightarrow> raise_io TypeError | Some p \<Rightarrow> return_io p)"

definition tmp_html :: "('d, 'x) env \<Rightarrow> (('d, 'x) world, TempFile) io" where
  "tmp_html E = TempFile_init E ''bokeh'' ''.html''"

text \<open>
  \<^verbatim>\<open>with _tmp_html() as tmp: body\<close>. \<^verbatim>\<open>__enter__\<close> returns the object itself and
  \<^verbatim>\<open>__exit__\<close> calls \<^verbatim>\<open>close\<close> and returns nothing, so that an exception of the body
  propagates after it.
\<close>

definition with_tmp_html :: "('d, 'x) env \<Rightarrow> (TempFile \<Rightarrow> (('d, 'x) world, 'a) io) \<Rightarrow> (('d, 'x) world, 'a) io" where
  "with_tmp_html E body = bind_io (tmp_html E) (\<lambda>tmp. try_finally (body tmp) (TempFile_exit E tmp))"

subsection \<open>Dev API\<close>

definition wait_until_render_complete :: "'d WebDriver \<Rightarrow> int \<Rightarrow> (('d, 'x) world, unit) io" where
  "wait_until_render_complete driver timeout =
     bind_io
       (try_except
          (WebDriverWait_until timeout IS_BOKEH_LOADED (is_bokeh_loaded_js driver))
          (\<lambda>e. e = TimeoutException)
          (\<lambda>e. bind_io (log_console driver) (\<lambda>_. raise_io (RuntimeError NOT_LOADED_MESSAGE))))
       (\<lambda>_.
     bind_io (execute_script WAIT_SCRIPT (wait_script_js driver)) (\<lambda>_.
     try_finally
       (try_except
          (bind_io (WebDriverWait_until timeout IS_BOKEH_RENDER_COMPLETE (is_bokeh_render_complete_js driver))
             (\<lambda>_. return_io ()))
          (\<lambda>e. e = TimeoutException)
          (\<lambda>e. log_warning RENDER_TIMEOUT_WARNING))
       (log_console driver)))"

text \<open>
  The keyword arguments \<^verbatim>\<open>**kwargs\<close>: a dictionary from names to values, where a
  value is an integer or \<^verbatim>\<open>None\<close>. \<open>kwargs_get\<close> is \<^verbatim>\<open>kwargs.get(k)\<close> and
  \<open>kwargs_get_default\<close> is \<^verbatim>\<open>kwargs.get(k, d)\<close>.
\<close>

type_synonym kwargs = "string \<rightharpoonup> int option"

definition kwargs_get :: "kwargs \<Rightarrow> string \<Rightarrow> int option" where
  "kwargs_get kwargs k = (case kwargs k of None \<Rightarrow> None | Some v \<Rightarrow> v)"

definition kwargs_get_default :: "kwargs \<Rightarrow> string \<Rightarrow> int option \<Rightarrow> int option" where
  "kwargs_get_default kwargs k d = (case kwargs k of None \<Rightarrow> d | Some v \<Rightarrow> v)"

text \<open>
  \<open>get_layout_html\<close>: the first part computes \<^verbatim>\<open>resize\<close> (here: the old size, when
  the object was resized) and resizes a \<open>Plot\<close>; the \<^verbatim>\<open>finally\<close> block restores the
  old size.
\<close>

definition resize_layout :: "kwargs \<Rightarrow> (('d, 'x) world, (int option \<times> int option) option) io" where
  "resize_layout kwargs =
     (if kwargs_get kwargs ''height'' \<noteq> None \<or> kwargs_get kwargs ''width'' \<noteq> None
      then (\<lambda>w. case layout w of
              NonPlot _ \<Rightarrow>
                bind_io
                  (warnings_warn (''Export method called with height or width kwargs on a non-Plot layout. '' @
                                  ''The size values will be ignored.''))
                  (\<lambda>_. return_io None) w
            | PlotObj obj \<Rightarrow>
                (let old_height = plot_height obj;
                     old_width = plot_width obj
                 in (Inr (Some (old_height, old_width)),
                     w\<lparr>layout := PlotObj (obj\<lparr>plot_height := kwargs_get_default kwargs ''height'' old_height,
                                              plot_width := kwargs_get_default kwargs ''width'' old_width\<rparr>)\<rparr>)))
      else return_io None)"

definition restore_layout :: "(int option \<times> int option) option \<Rightarrow> (('d, 'x) world, unit) io" where
  "restore_layout resize =
     (case resize of
        None \<Rightarrow> return_io ()
      | Some (old_height, old_width) \<Rightarrow>
          (\<lambda>w. case layout w of
             PlotObj obj \<Rightarrow>
               (Inr (), w\<lparr>layout := PlotObj (obj\<lparr>plot_height := old_height, plot_width := old_width\<rparr>)\<rparr>)
           | NonPlot x \<Rightarrow> (Inr (), w)))"

definition get_layout_html :: "('d, 'x) env \<Rightarrow> kwargs \<Rightarrow> (('d, 'x) world, string) io" where
  "get_layout_html E kwargs =
     bind_io (resize_layout kwargs) (\<lambda>resize.
       try_finally (\<lambda>w. (file_html E (layout w), w)) (restore_layout resize))"

definition get_driver :: "('d, 'x) env \<Rightarrow> 'd WebDriver option \<Rightarrow> (('d, 'x) world, 'd WebDriver) io" where
  "get_driver E driver =
     (case driver of Some d \<Rightarrow> return_io d | None \<Rightarrow> (\<lambda>w. (webdriver_control_get E, w)))"

definition get_screenshot_as_png ::
  "('d, 'x) env \<Rightarrow> 'd WebDriver option \<Rightarrow> int \<Rightarrow> kwargs \<Rightarrow> (('d, 'x) world, Image) io" where
  "get_screenshot_as_png E driver timeout kwargs =
     bind_io
       (with_tmp_html E (\<lambda>tmp.
          bind_io (get_layout_html E kwargs) (\<lambda>html.
          bind_io (bind_io (TempFile_path tmp) (\<lambda>p. write_file E p html)) (\<lambda>_.
          bind_io (get_driver E driver) (\<lambda>web_driver.
          bind_io (driver_call MaximizeWindow (maximize_window web_driver)) (\<lambda>_.
          bind_io (bind_io (TempFile_path tmp) (\<lambda>p.
                     driver_call (Get (''file:///'' @ p)) (get_url web_driver (''file:///'' @ p)))) (\<lambda>_.
          bind_io (wait_until_render_complete web_driver timeout) (\<lambda>_.
          bind_io (maximize_viewport web_driver) (\<lambda>_.
          driver_call GetScreenshotAsPng (screenshot_png web_driver))))))))))
       (\<lambda>png w. (Image_open E png, w))"

definition get_svgs ::
  "('d, 'x) env \<Rightarrow> 'd WebDriver option \<Rightarrow> int \<Rightarrow> kwargs \<Rightarrow> (('d, 'x) world, string list) io" where
  "get_svgs E driver timeout kwargs =
     with_tmp_html E (\<lambda>tmp.
       bind_io (get_layout_html E kwargs) (\<lambda>html.
       bind_io (bind_io (TempFile_path tmp) (\<lambda>p. write_file E p html)) (\<lambda>_.
       bind_io (get_driver E driver) (\<lambda>web_driver.
       bind_io (bind_io (TempFile_path tmp) (\<lambda>p.
                  driver_call (Get (''file:///'' @ p)) (get_url web_driver (''file:///'' @ p)))) (\<lambda>_.
       bind_io (wait_until_render_complete web_driver timeout) (\<lambda>_.
       execute_script SVG_SCRIPT (svg_script_js web_driver)))))))"

subsection \<open>General API\<close>

definition export_png ::
  "('d, 'x) env \<Rightarrow> string option \<Rightarrow> int option \<Rightarrow> int option \<Rightarrow> 'd WebDriver option \<Rightarrow> int
     \<Rightarrow> (('d, 'x) world, string) io" where
  "export_png E filename height width webdriver timeout =
     bind_io (get_screenshot_as_png E webdriver timeout [''height'' \<mapsto> height, ''width'' \<mapsto> width]) (\<lambda>img.
       let filename = (case filename of None \<Rightarrow> default_filename E ''png'' | Some f \<Rightarrow> f) in
       if img_width img = 0 \<or> img_height img = 0
       then raise_io (ValueError ''unable to save an empty image'')
       else bind_io (Image_save E img filename) (\<lambda>_. return_io (abspath E filename)))"

text \<open>
  The loop of \<open>export_svgs\<close> over \<^verbatim>\<open>enumerate(svgs)\<close>: \<open>i\<close> is the index of the next
  item, \<open>filename\<close> the name used last and \<open>filenames\<close> the names collected so far.
\<close>

fun export_svgs_loop ::
  "('d, 'x) env \<Rightarrow> nat \<Rightarrow> string \<Rightarrow> string list \<Rightarrow> string list \<Rightarrow> (('d, 'x) world, string list) io" where
  "export_svgs_loop E i filename filenames [] = return_io filenames"
| "export_svgs_loop E i filename filenames (svg # svgs) =
     (let filename =
            (if i = 0 then filename
             else (let idx = py_find filename ''.svg''
                   in slice_to filename idx @ (''_'' @ str_nat i) @ slice_from filename idx))
      in bind_io (write_file E filename svg) (\<lambda>_.
           export_svgs_loop E (Suc i) filename (filenames @ [filename]) svgs))"

text \<open>The result \<open>None\<close> is Python's \<^verbatim>\<open>None\<close>, what a bare \<^verbatim>\<open>return\<close> returns.\<close>

definition export_svgs ::
  "('d, 'x) env \<Rightarrow> string option \<Rightarrow> int option \<Rightarrow> int option \<Rightarrow> 'd WebDriver option \<Rightarrow> int
     \<Rightarrow> (('d, 'x) world, string list option) io" where
  "export_svgs E filename height width webdriver timeout =
     bind_io (get_svgs E webdriver timeout [''height'' \<mapsto> height, ''width'' \<mapsto> width]) (\<lambda>svgs.
       if length svgs = 0
       then bind_io (log_warning NO_SVG_WARNING) (\<lambda>_. return_io None)
       else
         let filename = (case filename of None \<Rightarrow> default_filename E ''svg'' | Some f \<Rightarrow> f) in
         bind_io (export_svgs_loop E 0 filename [] svgs) (\<lambda>filenames. return_io (Some filenames)))"

section \<open>Traces and file names\<close>

text \<open>
  The events of one polling phase on the script \<open>s\<close>: runs of the script, with one
  sleep of the polling interval between any two of them (and one after the last run,
  when the phase ended by the clock).
\<close>

fun is_polling :: "script \<Rightarrow> event list \<Rightarrow> bool" where
  "is_polling s [] = False"
| "is_polling s [e] = (e = ExecuteScript s)"
| "is_polling s (e # e' # rest) = (e = ExecuteScript s \<and> e' = Sleep \<and> (rest = [] \<or> is_polling s rest))"

text \<open>
  The name \<open>export_svgs\<close> gives to item \<open>i\<close> when the last name was \<open>filename\<close>, and
  the names of all the items from \<open>i\<close> on: the loop without its writes.
\<close>

definition next_filename :: "nat \<Rightarrow> string \<Rightarrow> string" where
  "next_filename i filename =
     (if i = 0 then filename
      else (let idx = py_find filename ''.svg''
            in slice_to filename idx @ (''_'' @ str_nat i) @ slice_from filename idx))"

fun loop_filenames :: "nat \<Rightarrow> string \<Rightarrow> 'a list \<Rightarrow> string list" where
  "loop_filenames i filename [] = []"
| "loop_filenames i filename (svg # svgs) =
     next_filename i filename # loop_filenames (Suc i) (next_filename i filename) svgs"

text \<open>
  One round of the polling loop is a run of the script followed by a sleep;
  \<open>poll_rounds s method n w\<close> is the world after \<open>n\<close> rounds. In a world where the
  method does not return true (it returns false or raises the ignored exception) the
  condition is \<open>not_yet\<close> true.
\<close>

definition poll_round :: "script \<Rightarrow> ('d \<Rightarrow> (exn + bool) \<times> 'd) \<Rightarrow> ('d, 'x) world \<Rightarrow> ('d, 'x) world" where
  "poll_round s method w = snd (time_sleep (snd (execute_script s method w)))"

fun poll_rounds :: "script \<Rightarrow> ('d \<Rightarrow> (exn + bool) \<times> 'd) \<Rightarrow> nat \<Rightarrow> ('d, 'x) world \<Rightarrow> ('d, 'x) world" where
  "poll_rounds s method 0 w = w"
| "poll_rounds s method (Suc n) w = poll_round s method (poll_rounds s method n w)"

definition not_yet :: "('d \<Rightarrow> (exn + bool) \<times> 'd) \<Rightarrow> ('d, 'x) world \<Rightarrow> bool" where
  "not_yet method w =
     (fst (method (browser w)) = Inr False \<or> fst (method (browser w)) = Inl NoSuchElementException)"

text \<open>
  The events of a polling phase of \<open>n\<close> rounds and one more run of the script,
  followed, when the phase ended by the clock, by the sleep after that run.
\<close>

definition phase_trace :: "script \<Rightarrow> nat \<Rightarrow> bool \<Rightarrow> event list" where
  "phase_trace s n by_clock =
     concat (replicate n [ExecuteScript s, Sleep])
     @ (if by_clock then [ExecuteScript s, Sleep] else [ExecuteScript s])"

text \<open>
  A polling phase with a timeout of \<open>timeout\<close> seconds that starts in \<open>w\<close> and ends
  with the outcome \<open>res\<close> (a result and a world) after \<open>n\<close> rounds and one more run of
  the script. In each of the \<open>n\<close> rounds the condition was not yet true, and after the
  round the end time had not passed. Then either the condition was, again, not yet
  true and the end time had passed after the sleep: the phase ended by the clock, with
  \<^verbatim>\<open>TimeoutException\<close>; or the phase ended with that run of the script, and its
  outcome is what the run gave: the value true or an exception of the driver. The end
  time admits at most ten rounds for every second of the timeout.
\<close>

definition polling_phase ::
  "int \<Rightarrow> script \<Rightarrow> ('d \<Rightarrow> (exn + bool) \<times> 'd) \<Rightarrow> ('d, 'x) world \<Rightarrow> (exn + bool) \<times> ('d, 'x) world
     \<Rightarrow> nat \<Rightarrow> bool \<Rightarrow> bool" where
  "polling_phase timeout s method w res n by_clock =
     (int n \<le> max 0 (10 * timeout)
      \<and> (\<forall>i<n. not_yet method (poll_rounds s method i w)
               \<and> clock (poll_rounds s method (Suc i) w) \<le> clock w + 1000 * timeout)
      \<and> by_clock = not_yet method (poll_rounds s method n w)
      \<and> (if by_clock
         then clock w + 1000 * timeout < clock (poll_rounds s method (Suc n) w)
              \<and> res = (Inl TimeoutException, poll_rounds s method (Suc n) w)
         else res = execute_script s method (poll_rounds s method n w))
      \<and> events (snd res) = events w @ phase_trace s n by_clock)"

section \<open>An example environment\<close>

text \<open>
  A browser whose state counts the scripts it has run: the library is loaded from
  the \<open>load_after\<close>-th script on and rendering is complete from the
  \<open>complete_after\<close>-th on. \<open>logs\<close> is what reading the console log gives. In the
  example world every call of a driver method takes 5 milliseconds and every sleep
  overruns by 5 milliseconds.
\<close>

definition example_driver ::
  "nat \<Rightarrow> nat \<Rightarrow> string list \<Rightarrow> string \<Rightarrow> exn + log_entry list \<Rightarrow> nat WebDriver" where
  "example_driver load_after complete_after svgs png logs =
     \<lparr>maximize_window = (\<lambda>d. (Inr (), d)),
      get_url = (\<lambda>url d. (Inr (), d)),
      is_bokeh_loaded_js = (\<lambda>d. (Inr (load_after \<le> d), Suc d)),
      wait_script_js = (\<lambda>d. (Inr (), Suc d)),
      is_bokeh_render_complete_js = (\<lambda>d. (Inr (complete_after \<le> d), Suc d)),
      svg_script_js = (\<lambda>d. (Inr svgs, Suc d)),
      calculate_window_size_js = (\<lambda>d. (Inr (800, 600), Suc d)),
      get_log = (\<lambda>kind d. (logs, d)),
      screenshot_png = (\<lambda>d. (Inr png, d)),
      set_window_size = (\<lambda>width height d. (Inr (), d))\<rparr>"

definition example_env :: "(string \<Rightarrow> bool) \<Rightarrow> (string \<Rightarrow> bool) \<Rightarrow> (nat, unit) env" where
  "example_env can_write can_remove =
     \<lparr>default_filename = (\<lambda>ext. ''/work/plot.'' @ ext),
      file_html = (\<lambda>obj. case obj of
                     PlotObj p \<Rightarrow> if plot_height p = Some 0 then Inl (ValueError ''empty plot'')
                                  else Inr ''<html></html>''
                   | NonPlot x \<Rightarrow> Inr ''<html></html>''),
      webdriver_control_get = Inl WebDriverException,
      Image_open = (\<lambda>png. Inr \<lparr>img_width = length png, img_height = 1, img_pixels = png\<rparr>),
      image_format = (\<lambda>name. if drop (length name - 4) name = ''.png'' then Some ''PNG'' else None),
      image_encode = (\<lambda>fmt img. Inr (img_pixels img)),
      cwd = ''work'',
      mkstemp_candidates = (\<lambda>pre suf. [(3, ''/tmp/'' @ pre @ ''0001'' @ suf)]),
      writable = can_write,
      removable = can_remove\<rparr>"

definition example_world :: "unit layout \<Rightarrow> (nat, unit) world" where
  "example_world obj =
     \<lparr>files = Map.empty, open_fds = {}, writes = [], log_records = [], py_warnings = [],
      clock = 0, latency = (\<lambda>k. 5), events = [], browser = 0, layout = obj\<rparr>"

definition example_plot :: "unit Plot" where
  "example_plot = \<lparr>plot_height = Some 600, plot_width = Some 600, other_props = ()\<rparr>"

section \<open>Proof tools\<close>

lemmas io_defs = bind_io_def return_io_def raise_io_def try_except_def try_finally_def

lemmas os_defs = mkstemp_def os_close_def os_unlink_def can_open_def write_file_def Image_save_def
  log_warning_def warnings_warn_def

lemmas driver_defs = driver_call_def execute_script_def time_sleep_def WebDriverWait_until_def

lemmas module_defs = log_console_def maximize_viewport_def TempFile_init_def TempFile_close_def
  TempFile_exit_def TempFile_path_def tmp_html_def with_tmp_html_def wait_until_render_complete_def
  kwargs_get_def kwargs_get_default_def resize_layout_def restore_layout_def get_layout_html_def
  get_driver_def get_screenshot_as_png_def get_svgs_def export_png_def export_svgs_def

lemmas example_defs = example_driver_def example_env_def example_world_def example_plot_def

lemmas eval_defs = module_defs io_defs os_defs driver_defs example_defs until.simps Let_def
  CONSOLE_WARNING_def NOT_LOADED_MESSAGE_def RENDER_TIMEOUT_WARNING_def NO_SVG_WARNING_def

section \<open>The polling loop\<close>

lemma poll_round_eq:
  "poll_round s m w =
     (case m (browser w) of (r, d) \<Rightarrow>
        w\<lparr>browser := d,
          clock := clock w + int (latency w (length (events w))) + 100
                   + int (latency w (Suc (length (events w)))),
          events := events w @ [ExecuteScript s, Sleep]\<rparr>)"
  by (simp add: poll_round_def driver_defs split: prod.splits)

lemma poll_round_frame [simp]:
  "files (poll_round s m w) = files w"
  "open_fds (poll_round s m w) = open_fds w"
  "writes (poll_round s m w) = writes w"
  "log_records (poll_round s m w) = log_records w"
  "py_warnings (poll_round s m w) = py_warnings w"
  "layout (poll_round s m w) = layout w"
  "latency (poll_round s m w) = latency w"
  "events (poll_round s m w) = events w @ [ExecuteScript s, Sleep]"
  by (simp_all add: poll_round_eq split: prod.splits)

lemma poll_round_clock: "clock w + 100 \<le> clock (poll_round s m w)"
  by (simp add: poll_round_eq split: prod.splits)

lemma execute_script_eq:
  "execute_script s m w =
     (fst (m (browser w)),
      w\<lparr>events := events w @ [ExecuteScript s], browser := snd (m (browser w)),
        clock := clock w + int (latency w (length (events w)))\<rparr>)"
  by (simp add: driver_defs split: prod.splits)

lemma until_unfold:
  "until e s m w =
     (if not_yet m w
      then (if e < clock (poll_round s m w) then (Inl TimeoutException, poll_round s m w)
            else until e s m (poll_round s m w))
      else execute_script s m w)"
proof -
  obtain r d where op: "m (browser w) = (r, d)" by (cases "m (browser w)")
  have x: "execute_script s m w = (r, snd (execute_script s m w))"
    by (simp add: execute_script_eq op)
  have t: "time_sleep (snd (execute_script s m w)) = (Inr (), poll_round s m w)"
    by (simp add: poll_round_def time_sleep_def)
  show ?thesis
  proof (cases "not_yet m w")
    case True
    then have "r = Inr False \<or> r = Inl NoSuchElementException" by (simp add: not_yet_def op)
    then have "r \<noteq> Inr True" "\<not> (r \<noteq> Inr False \<and> r \<noteq> Inl NoSuchElementException)" by auto
    with True show ?thesis
      by (subst until.simps, subst x) (auto simp: t)
  next
    case False
    then have "r \<noteq> Inr False \<and> r \<noteq> Inl NoSuchElementException" by (simp add: not_yet_def op)
    with False x show ?thesis
      by (subst until.simps) (auto split: prod.splits)
  qed
qed

lemma until_induct [case_names step]:
  assumes "\<And>w. (not_yet m w \<Longrightarrow> \<not> e < clock (poll_round s m w) \<Longrightarrow> P (poll_round s m w)) \<Longrightarrow> P w"
  shows "P w"
proof -
  have "\<And>e' s' m'. e' = e \<Longrightarrow> s' = s \<Longrightarrow> m' = m \<Longrightarrow> P w"
  proof -
    fix e' s' m'
    show "e' = e \<Longrightarrow> s' = s \<Longrightarrow> m' = m \<Longrightarrow> P w"
    proof (induction e' s' m' w rule: until.induct)
      case (1 end_time s' mth w)
      show ?case
      proof (rule assms)
        assume a: "not_yet m w" "\<not> e < clock (poll_round s m w)"
        obtain r d where op: "m (browser w) = (r, d)" by (cases "m (browser w)")
        have x: "execute_script s m w = (r, snd (execute_script s m w))"
          by (simp add: execute_script_eq op)
        have t: "time_sleep (snd (execute_script s m w)) = (Inr (), poll_round s m w)"
          by (simp add: poll_round_def time_sleep_def)
        from a(1) have r: "r = Inr False \<or> r = Inl NoSuchElementException" by (simp add: not_yet_def op)
        have "P (poll_round s m w)"
          using a r "1.prems"
          by (intro "1.IH"[of r "snd (execute_script s m w)" "Inr ()" "poll_round s m w"])
             (auto simp: x[symmetric] t)
        then show "P (poll_round s m w)" .
      qed
    qed
  qed
  then show ?thesis by simp
qed

lemma poll_rounds_shift:
  "poll_rounds s m (Suc n) w = poll_rounds s m n (poll_round s m w)"
  by (induction n) simp_all

lemma poll_rounds_frame [simp]:
  "files (poll_rounds s m n w) = files w"
  "open_fds (poll_rounds s m n w) = open_fds w"
  "writes (poll_rounds s m n w) = writes w"
  "log_records (poll_rounds s m n w) = log_records w"
  "py_warnings (poll_rounds s m n w) = py_warnings w"
  "layout (poll_rounds s m n w) = layout w"
  "latency (poll_rounds s m n w) = latency w"
  by (induction n) simp_all

lemma poll_rounds_events:
  "events (poll_rounds s m n w) = events w @ concat (replicate n [ExecuteScript s, Sleep])"
proof (induction n)
  case 0
  show ?case by simp
next
  case (Suc n)
  have "replicate (Suc n) [ExecuteScript s, Sleep] = replicate n [ExecuteScript s, Sleep] @ [[ExecuteScript s, Sleep]]"
    by (simp add: replicate_append_same)
  with Suc show ?case by simp
qed

lemma poll_rounds_clock: "clock w + 100 * int n \<le> clock (poll_rounds s m n w)"
proof (induction n)
  case 0
  show ?case by simp
next
  case (Suc n)
  from poll_round_clock[of "poll_rounds s m n w" s m] Suc show ?case by simp
qed

text \<open>The loop in closed form: the number of its rounds and its outcome.\<close>

lemma until_rounds:
  "\<exists>n. (\<forall>i<n. not_yet m (poll_rounds s m i w) \<and> clock (poll_rounds s m (Suc i) w) \<le> e)
       \<and> (if not_yet m (poll_rounds s m n w)
          then e < clock (poll_rounds s m (Suc n) w)
               \<and> until e s m w = (Inl TimeoutException, poll_rounds s m (Suc n) w)
          else until e s m w = execute_script s m (poll_rounds s m n w))"
proof (induction w rule: until_induct[of m e s])
  case (step w)
  show ?case
  proof (cases "not_yet m w \<and> \<not> e < clock (poll_round s m w)")
    case False
    then have "if not_yet m (poll_rounds s m 0 w)
          then e < clock (poll_rounds s m (Suc 0) w)
               \<and> until e s m w = (Inl TimeoutException, poll_rounds s m (Suc 0) w)
          else until e s m w = execute_script s m (poll_rounds s m 0 w)"
      by (subst (1 2) until_unfold) auto
    then show ?thesis by (intro exI[of _ 0]) simp
  next
    case True
    let ?w = "poll_round s m w"
    from True step obtain n where
      n: "\<forall>i<n. not_yet m (poll_rounds s m i ?w) \<and> clock (poll_rounds s m (Suc i) ?w) \<le> e"
        "if not_yet m (poll_rounds s m n ?w)
          then e < clock (poll_rounds s m (Suc n) ?w)
               \<and> until e s m ?w = (Inl TimeoutException, poll_rounds s m (Suc n) ?w)
          else until e s m ?w = execute_script s m (poll_rounds s m n ?w)"
      by blast
    from True have eq: "until e s m w = until e s m ?w"
      by (subst until_unfold) simp
    have a: "not_yet m (poll_rounds s m i w) \<and> clock (poll_rounds s m (Suc i) w) \<le> e" if "i < Suc n" for i
    proof (cases i)
      case 0
      with True show ?thesis by simp
    next
      case (Suc j)
      with that have "j < n" by simp
      with n(1) have "not_yet m (poll_rounds s m j ?w) \<and> clock (poll_rounds s m (Suc j) ?w) \<le> e" by blast
      then show ?thesis unfolding Suc poll_rounds_shift[symmetric] .
    qed
    have b: "if not_yet m (poll_rounds s m (Suc n) w)
          then e < clock (poll_rounds s m (Suc (Suc n)) w)
               \<and> until e s m w = (Inl TimeoutException, poll_rounds s m (Suc (Suc n)) w)
          else until e s m w = execute_script s m (poll_rounds s m (Suc n) w)"
      using n(2) unfolding eq poll_rounds_shift[symmetric] .
    from a b show ?thesis by (intro exI[of _ "Suc n"]) blast
  qed
qed

lemma WebDriverWait_until_phase:
  "\<exists>n b. polling_phase timeout s m w (WebDriverWait_until timeout s m w) n b"
proof -
  let ?e = "clock w + 1000 * timeout"
  from until_rounds[of m s w ?e] obtain n where
    n: "\<forall>i<n. not_yet m (poll_rounds s m i w) \<and> clock (poll_rounds s m (Suc i) w) \<le> ?e"
       "if not_yet m (poll_rounds s m n w)
          then ?e < clock (poll_rounds s m (Suc n) w)
               \<and> until ?e s m w = (Inl TimeoutException, poll_rounds s m (Suc n) w)
          else until ?e s m w = execute_script s m (poll_rounds s m n w)"
    by blast
  have b: "int n \<le> max 0 (10 * timeout)"
  proof (cases n)
    case 0
    then show ?thesis by simp
  next
    case (Suc j)
    with n(1) have "clock (poll_rounds s m n w) \<le> ?e" by simp
    with poll_rounds_clock[of w n s m] show ?thesis by simp
  qed
  have ev: "events (snd (until ?e s m w)) = events w @ phase_trace s n (not_yet m (poll_rounds s m n w))"
  proof (cases "not_yet m (poll_rounds s m n w)")
    case True
    with n(2) have "until ?e s m w = (Inl TimeoutException, poll_rounds s m (Suc n) w)" by simp
    with True show ?thesis by (simp add: phase_trace_def poll_rounds_events)
  next
    case False
    with n(2) have "until ?e s m w = execute_script s m (poll_rounds s m n w)" by simp
    with False show ?thesis by (simp add: phase_trace_def poll_rounds_events execute_script_eq)
  qed
  from n b ev have "polling_phase timeout s m w (WebDriverWait_until timeout s m w) n
     (not_yet m (poll_rounds s m n w))"
    unfolding polling_phase_def WebDriverWait_until_def by simp
  then show ?thesis by blast
qed

lemma polling_phase_events:
  assumes "polling_phase timeout s m w res n b"
  shows "events (snd res) = events w @ phase_trace s n b"
  using assms by (simp add: polling_phase_def)

lemma polling_phase_frame:
  assumes "polling_phase timeout s m w res n b"
  shows "files (snd res) = files w" "open_fds (snd res) = open_fds w" "writes (snd res) = writes w"
    "log_records (snd res) = log_records w" "py_warnings (snd res) = py_warnings w"
    "layout (snd res) = layout w" "latency (snd res) = latency w"
proof -
  from assms have "res = (Inl TimeoutException, poll_rounds s m (Suc n) w)
      \<or> res = execute_script s m (poll_rounds s m n w)"
    by (auto simp: polling_phase_def split: if_splits)
  then show "files (snd res) = files w" "open_fds (snd res) = open_fds w" "writes (snd res) = writes w"
    "log_records (snd res) = log_records w" "py_warnings (snd res) = py_warnings w"
    "layout (snd res) = layout w" "latency (snd res) = latency w"
    by (auto simp: execute_script_eq)
qed

lemma polling_phase_result:
  assumes "polling_phase timeout s m w res n b" and "fst res = Inr v"
  shows "v" and "\<not> b"
proof -
  show n: "\<not> b"
    using assms by (auto simp: polling_phase_def split: if_splits)
  with assms have "res = execute_script s m (poll_rounds s m n w)" "\<not> not_yet m (poll_rounds s m n w)"
    by (simp_all add: polling_phase_def)
  with assms(2) show v by (auto simp: execute_script_eq not_yet_def)
qed

text \<open>
  When every call takes some time, the end time admits fewer rounds: a phase of a
  timeout of \<open>t\<close> seconds then runs its script at most \<open>10 * t\<close> times.
\<close>

lemma poll_rounds_clock_positive:
  assumes "\<forall>k. 0 < latency w k"
  shows "clock w + 101 * int n \<le> clock (poll_rounds s m n w)"
proof (induction n)
  case 0
  show ?case by simp
next
  case (Suc n)
  let ?w = "poll_rounds s m n w"
  from assms have "0 < latency ?w (length (events ?w))" by simp
  then have "clock ?w + 101 \<le> clock (poll_round s m ?w)"
    by (simp add: poll_round_eq split: prod.splits)
  with Suc show ?case by simp
qed

lemma polling_phase_positive:
  assumes "polling_phase timeout s m w res n b" and "\<forall>k. 0 < latency w k" and "0 < timeout"
  shows "int n < 10 * timeout"
proof (cases n)
  case 0
  with assms(3) show ?thesis by simp
next
  case (Suc j)
  with assms(1) have "clock (poll_rounds s m n w) \<le> clock w + 1000 * timeout"
    by (simp add: polling_phase_def)
  with poll_rounds_clock_positive[OF assms(2), of n s m] have "101 * int n \<le> 1000 * timeout"
    by simp
  with assms(3) show ?thesis by arith
qed

lemma is_polling_rounds:
  "is_polling s tr \<Longrightarrow> is_polling s (concat (replicate n [ExecuteScript s, Sleep]) @ tr)"
  by (induction n) simp_all

lemma is_polling_phase_trace: "is_polling s (phase_trace s n b)"
  unfolding phase_trace_def by (rule is_polling_rounds) simp

lemma until_frame [simp]:
  "files (snd (WebDriverWait_until t s m w)) = files w"
  "open_fds (snd (WebDriverWait_until t s m w)) = open_fds w"
  "writes (snd (WebDriverWait_until t s m w)) = writes w"
  "log_records (snd (WebDriverWait_until t s m w)) = log_records w"
  "py_warnings (snd (WebDriverWait_until t s m w)) = py_warnings w"
  "layout (snd (WebDriverWait_until t s m w)) = layout w"
  "latency (snd (WebDriverWait_until t s m w)) = latency w"
proof -
  from WebDriverWait_until_phase[of t s m w] obtain n b where
    "polling_phase t s m w (WebDriverWait_until t s m w) n b" by blast
  note f = polling_phase_frame[OF this]
  show "files (snd (WebDriverWait_until t s m w)) = files w"
    "open_fds (snd (WebDriverWait_until t s m w)) = open_fds w"
    "writes (snd (WebDriverWait_until t s m w)) = writes w"
    "log_records (snd (WebDriverWait_until t s m w)) = log_records w"
    "py_warnings (snd (WebDriverWait_until t s m w)) = py_warnings w"
    "layout (snd (WebDriverWait_until t s m w)) = layout w"
    "latency (snd (WebDriverWait_until t s m w)) = latency w"
    by (rule f)+
qed

lemma WebDriverWait_until_events:
  "\<exists>tr. events (snd (WebDriverWait_until t s m w)) = events w @ tr \<and> is_polling s tr"
proof -
  from WebDriverWait_until_phase[of t s m w] obtain n b where
    "polling_phase t s m w (WebDriverWait_until t s m w) n b" by blast
  from polling_phase_events[OF this] show ?thesis
    using is_polling_phase_trace by blast
qed

lemma WebDriverWait_until_result: "fst (WebDriverWait_until t s m w) = Inr v \<Longrightarrow> v"
proof -
  assume a: "fst (WebDriverWait_until t s m w) = Inr v"
  from WebDriverWait_until_phase[of t s m w] obtain n b where
    "polling_phase t s m w (WebDriverWait_until t s m w) n b" by blast
  from polling_phase_result(1)[OF this a] show v .
qed

lemma is_polling_set: "is_polling s tr \<Longrightarrow> set tr \<subseteq> {ExecuteScript s, Sleep}"
  by (induction s tr rule: is_polling.induct) auto

section \<open>Surfacing the console log\<close>

lemma log_each_eq: "log_each ms w = (Inr (), w\<lparr>log_records := log_records w @ ms\<rparr>)"
  by (induction ms arbitrary: w) (simp_all add: io_defs log_warning_def)

lemma log_console_read:
  assumes "get_log driver ''browser'' (browser w) = (Inr logs, d)"
  shows "log_console driver w =
           (Inr (), w\<lparr>events := events w @ [GetLog ''browser''], browser := d,
                       clock := clock w + int (latency w (length (events w))),
                       log_records := log_records w @
                         (if filter (\<lambda>l. level l \<in> {''WARNING'', ''ERROR'', ''SEVERE''}) logs = [] then []
                          else CONSOLE_WARNING #
                               map message (filter (\<lambda>l. level l \<in> {''WARNING'', ''ERROR'', ''SEVERE''}) logs))\<rparr>)"
  using assms by (simp add: log_console_def driver_call_def io_defs log_warning_def log_each_eq Let_def)

lemma log_console_fails:
  assumes "get_log driver ''browser'' (browser w) = (Inl e, d)"
  shows "log_console driver w =
           (Inl e, w\<lparr>events := events w @ [GetLog ''browser''], browser := d,
                      clock := clock w + int (latency w (length (events w)))\<rparr>)"
  using assms by (simp add: log_console_def driver_call_def io_defs)

lemma log_console_fst:
  "fst (log_console driver w) =
     (case fst (get_log driver ''browser'' (browser w)) of Inl e \<Rightarrow> Inl e | Inr logs \<Rightarrow> Inr ())"
proof (cases "get_log driver ''browser'' (browser w)")
  case (Pair r d)
  then show ?thesis
    by (cases r) (simp_all add: log_console_read log_console_fails)
qed

lemma log_console_events:
  "events (snd (log_console driver w)) = events w @ [GetLog ''browser'']"
proof (cases "get_log driver ''browser'' (browser w)")
  case (Pair r d)
  then show ?thesis
    by (cases r) (simp_all add: log_console_read log_console_fails)
qed

section \<open>Waiting for the rendering\<close>

lemma wait_load_timeout:
  assumes "WebDriverWait_until timeout IS_BOKEH_LOADED (is_bokeh_loaded_js driver) w = (Inl TimeoutException, w1)"
  shows "wait_until_render_complete driver timeout w =
           (case log_console driver w1 of
              (Inl e, w2) \<Rightarrow> (Inl e, w2)
            | (Inr u, w2) \<Rightarrow> (Inl (RuntimeError NOT_LOADED_MESSAGE), w2))"
  using assms by (simp add: wait_until_render_complete_def io_defs split: prod.splits sum.splits)

lemma wait_load_error:
  assumes "WebDriverWait_until timeout IS_BOKEH_LOADED (is_bokeh_loaded_js driver) w = (Inl e, w1)"
      and "e \<noteq> TimeoutException"
  shows "wait_until_render_complete driver timeout w = (Inl e, w1)"
  using assms by (simp add: wait_until_render_complete_def io_defs)

lemma wait_script_error:
  assumes "WebDriverWait_until timeout IS_BOKEH_LOADED (is_bokeh_loaded_js driver) w = (Inr v, w1)"
      and "execute_script WAIT_SCRIPT (wait_script_js driver) w1 = (Inl e, w2)"
  shows "wait_until_render_complete driver timeout w = (Inl e, w2)"
  using assms by (simp add: wait_until_render_complete_def io_defs)

lemma wait_render_phase:
  assumes "WebDriverWait_until timeout IS_BOKEH_LOADED (is_bokeh_loaded_js driver) w = (Inr v, w1)"
      and "execute_script WAIT_SCRIPT (wait_script_js driver) w1 = (Inr u, w2)"
      and "WebDriverWait_until timeout IS_BOKEH_RENDER_COMPLETE (is_bokeh_render_complete_js driver) w2 = (r, w3)"
  shows "wait_until_render_complete driver timeout w =
           (case log_console driver
                   (if r = Inl TimeoutException
                    then w3\<lparr>log_records := log_records w3 @ [RENDER_TIMEOUT_WARNING]\<rparr> else w3) of
              (Inl e, w4) \<Rightarrow> (Inl e, w4)
            | (Inr x, w4) \<Rightarrow>
                (case r of Inl e \<Rightarrow> if e = TimeoutException then Inr () else Inl e | Inr b \<Rightarrow> Inr (), w4))"
  using assms
  by (cases r) (auto simp add: wait_until_render_complete_def io_defs log_warning_def split: prod.splits sum.splits)


text \<open>
  Claim C5. When the wait for the "library loaded" condition ends with a timeout,
  \<open>wait_until_render_complete\<close> reads the console log and then raises: it never
  returns normally. The exception is the \<^verbatim>\<open>RuntimeError\<close> whenever the log could be
  read; when reading the log raises, that exception takes its place. In both cases the
  events of the run are the polls of the first phase followed by the one read of the
  log: \<^verbatim>\<open>_WAIT_SCRIPT\<close> is not run and the "render complete" condition is never polled.
\<close>

theorem load_timeout_aborts:
  assumes "WebDriverWait_until timeout IS_BOKEH_LOADED (is_bokeh_loaded_js driver) w = (Inl TimeoutException, w1)"
  shows "fst (wait_until_render_complete driver timeout w) =
           (case fst (get_log driver ''browser'' (browser w1)) of
              Inr logs \<Rightarrow> Inl (RuntimeError NOT_LOADED_MESSAGE)
            | Inl e \<Rightarrow> Inl e)
         \<and> (\<exists>tr. events (snd (wait_until_render_complete driver timeout w)) = events w @ tr @ [GetLog ''browser'']
                  \<and> is_polling IS_BOKEH_LOADED tr)"
proof -
  obtain r w2 where lc: "log_console driver w1 = (r, w2)" by (cases "log_console driver w1")
  have "fst (log_console driver w1) = r" "events (snd (log_console driver w1)) = events w2"
    by (simp_all add: lc)
  then have r: "r = (case fst (get_log driver ''browser'' (browser w1)) of Inl e \<Rightarrow> Inl e | Inr logs \<Rightarrow> Inr ())"
    and ev: "events w2 = events w1 @ [GetLog ''browser'']"
    by (simp_all add: log_console_fst log_console_events)
  from WebDriverWait_until_events[of timeout IS_BOKEH_LOADED "is_bokeh_loaded_js driver" w] assms
  obtain tr where tr: "events w1 = events w @ tr" "is_polling IS_BOKEH_LOADED tr" by auto
  have "wait_until_render_complete driver timeout w =
          (case r of Inl e \<Rightarrow> Inl e | Inr u \<Rightarrow> Inl (RuntimeError NOT_LOADED_MESSAGE), w2)"
    by (simp add: wait_load_timeout[OF assms] lc split: sum.splits)
  with r ev tr show ?thesis by (auto split: sum.splits)
qed

theorem load_timeout_aborts_witness:
  "fst (WebDriverWait_until 1 IS_BOKEH_LOADED (is_bokeh_loaded_js (example_driver 1000 0 [] ''png'' (Inr [])))
          (example_world (NonPlot ()))) = Inl TimeoutException
   \<and> fst (wait_until_render_complete (example_driver 1000 0 [] ''png'' (Inr [])) 1 (example_world (NonPlot ())))
       = Inl (RuntimeError NOT_LOADED_MESSAGE)
   \<and> last (events (snd (wait_until_render_complete (example_driver 1000 0 [] ''png'' (Inr [])) 1
                   (example_world (NonPlot ()))))) = GetLog ''browser''
   \<and> count_list (events (snd (wait_until_render_complete (example_driver 1000 0 [] ''png'' (Inr [])) 1
                   (example_world (NonPlot ()))))) (ExecuteScript WAIT_SCRIPT) = 0
   \<and> count_list (events (snd (wait_until_render_complete (example_driver 1000 0 [] ''png'' (Inr [])) 1
                   (example_world (NonPlot ()))))) (ExecuteScript IS_BOKEH_RENDER_COMPLETE) = 0"
proof -
  let ?D = "example_driver 1000 0 [] ''png'' (Inr [])"
  let ?W = "example_world (NonPlot ())"
  let ?u = "WebDriverWait_until 1 IS_BOKEH_LOADED (is_bokeh_loaded_js ?D) ?W"
  let ?ev = "events (snd (wait_until_render_complete ?D 1 ?W))"
  have u: "fst ?u = Inl TimeoutException" by (simp add: eval_defs)
  then have h: "?u = (Inl TimeoutException, snd ?u)" by (simp add: prod_eq_iff)
  have g: "fst (get_log ?D ''browser'' (browser (snd ?u))) = Inr []" by (simp add: example_driver_def)
  have w: "events ?W = []" by (simp add: example_world_def)
  from load_timeout_aborts[OF h] g obtain tr where
    r: "fst (wait_until_render_complete ?D 1 ?W) = Inl (RuntimeError NOT_LOADED_MESSAGE)"
    and tr: "?ev = events ?W @ tr @ [GetLog ''browser'']" "is_polling IS_BOKEH_LOADED tr"
    by auto
  from is_polling_set[OF tr(2)] have "ExecuteScript WAIT_SCRIPT \<notin> set tr"
    "ExecuteScript IS_BOKEH_RENDER_COMPLETE \<notin> set tr" by auto
  with tr(1) w have "last ?ev = GetLog ''browser''"
    "count_list ?ev (ExecuteScript WAIT_SCRIPT) = 0"
    "count_list ?ev (ExecuteScript IS_BOKEH_RENDER_COMPLETE) = 0"
    by (simp_all add: count_list_0_iff)
  with u r show ?thesis by simp
qed

text \<open>
  The exception of this path is not always the \<^verbatim>\<open>RuntimeError\<close>: with a driver that
  cannot give its console log, the library never loads within the timeout and the
  exception that leaves the function is the driver's.
\<close>

theorem load_timeout_other_error_counterexample:
  "fst (WebDriverWait_until 1 IS_BOKEH_LOADED
          (is_bokeh_loaded_js (example_driver 1000 0 [] ''png'' (Inl WebDriverException)))
          (example_world (NonPlot ()))) = Inl TimeoutException
   \<and> fst (wait_until_render_complete (example_driver 1000 0 [] ''png'' (Inl WebDriverException)) 1
            (example_world (NonPlot ()))) = Inl WebDriverException"
  by (simp add: eval_defs)

text \<open>
  Claim C6. When the library has loaded, \<^verbatim>\<open>_WAIT_SCRIPT\<close> has run and the wait for
  the "render complete" condition ends with a timeout, the function logs the warning
  about the missing \<^verbatim>\<open>bokeh:idle\<close> event and goes on to read the console log. It
  returns normally whenever the log could be read; when reading the log raises, that
  exception propagates.
\<close>

theorem render_timeout_warns:
  assumes "WebDriverWait_until timeout IS_BOKEH_LOADED (is_bokeh_loaded_js driver) w = (Inr v, w1)"
      and "execute_script WAIT_SCRIPT (wait_script_js driver) w1 = (Inr u, w2)"
      and "WebDriverWait_until timeout IS_BOKEH_RENDER_COMPLETE (is_bokeh_render_complete_js driver) w2
             = (Inl TimeoutException, w3)"
  shows "fst (wait_until_render_complete driver timeout w) =
           (case fst (get_log driver ''browser'' (browser w3)) of Inr logs \<Rightarrow> Inr () | Inl e \<Rightarrow> Inl e)
         \<and> take (Suc (length (log_records w))) (log_records (snd (wait_until_render_complete driver timeout w)))
             = log_records w @ [RENDER_TIMEOUT_WARNING]"
proof -
  have "log_records w1 = log_records (snd (WebDriverWait_until timeout IS_BOKEH_LOADED (is_bokeh_loaded_js driver) w))"
    by (simp add: assms(1))
  then have l1: "log_records w1 = log_records w" by simp
  have "log_records w2 = log_records w1"
    using assms(2) by (auto simp: driver_defs split: prod.splits)
  moreover have "log_records w3 = log_records (snd (WebDriverWait_until timeout IS_BOKEH_RENDER_COMPLETE (is_bokeh_render_complete_js driver) w2))"
    by (simp add: assms(3))
  ultimately have l3: "log_records w3 = log_records w" using l1 by simp
  define w3' where "w3' = w3\<lparr>log_records := log_records w3 @ [RENDER_TIMEOUT_WARNING]\<rparr>"
  have b: "browser w3' = browser w3" by (simp add: w3'_def)
  have eq: "wait_until_render_complete driver timeout w =
          (case log_console driver w3' of (Inl e, w4) \<Rightarrow> (Inl e, w4) | (Inr x, w4) \<Rightarrow> (Inr (), w4))"
    by (simp add: wait_render_phase[OF assms] w3'_def split: prod.splits sum.splits)
  obtain r d where gl: "get_log driver ''browser'' (browser w3) = (r, d)"
    by (cases "get_log driver ''browser'' (browser w3)")
  show ?thesis
  proof (cases r)
    case (Inl e)
    with gl b have "get_log driver ''browser'' (browser w3') = (Inl e, d)" by simp
    from log_console_fails[OF this] Inl gl show ?thesis
      by (simp add: eq w3'_def l3)
  next
    case (Inr logs)
    with gl b have "get_log driver ''browser'' (browser w3') = (Inr logs, d)" by simp
    from log_console_read[OF this] Inr gl show ?thesis
      by (simp add: eq w3'_def l3)
  qed
qed


theorem render_timeout_warns_witness:
  "fst (wait_until_render_complete (example_driver 0 1000 [] ''png'' (Inr [])) 1 (example_world (NonPlot ())))
     = Inr ()
   \<and> log_records (snd (wait_until_render_complete (example_driver 0 1000 [] ''png'' (Inr [])) 1
        (example_world (NonPlot ())))) = [RENDER_TIMEOUT_WARNING]"
proof -
  let ?D = "example_driver 0 1000 [] ''png'' (Inr [])"
  let ?W = "example_world (NonPlot ())"
  let ?u1 = "WebDriverWait_until 1 IS_BOKEH_LOADED (is_bokeh_loaded_js ?D) ?W"
  let ?e = "execute_script WAIT_SCRIPT (wait_script_js ?D) (snd ?u1)"
  let ?u2 = "WebDriverWait_until 1 IS_BOKEH_RENDER_COMPLETE (is_bokeh_render_complete_js ?D) (snd ?e)"
  have "fst ?u1 = Inr True" by (simp add: eval_defs)
  then have h1: "?u1 = (Inr True, snd ?u1)" by (simp add: prod_eq_iff)
  have "fst ?e = Inr ()" by (simp add: eval_defs)
  then have h2: "?e = (Inr (), snd ?e)" by (simp add: prod_eq_iff)
  have "fst ?u2 = Inl TimeoutException" by (simp add: eval_defs)
  then have h3: "?u2 = (Inl TimeoutException, snd ?u2)" by (simp add: prod_eq_iff)
  have g: "fst (get_log ?D ''browser'' (browser (snd ?u2))) = Inr []" by (simp add: example_driver_def)
  have l: "log_records (snd (wait_until_render_complete ?D 1 ?W)) = [RENDER_TIMEOUT_WARNING]"
    by (simp add: eval_defs)
  from render_timeout_warns[OF h1 h2 h3] g l show ?thesis by simp
qed

text \<open>
  On this path the function can raise: with a driver that cannot give its console
  log, the library loads, rendering does not complete within the timeout, and the
  function raises the driver's exception from its \<^verbatim>\<open>finally\<close> block.
\<close>

theorem render_timeout_other_error_counterexample:
  "fst (WebDriverWait_until 1 IS_BOKEH_LOADED
          (is_bokeh_loaded_js (example_driver 0 1000 [] ''png'' (Inl WebDriverException)))
          (example_world (NonPlot ()))) = Inr True
   \<and> fst (WebDriverWait_until 1 IS_BOKEH_RENDER_COMPLETE
          (is_bokeh_render_complete_js (example_driver 0 1000 [] ''png'' (Inl WebDriverException)))
          (snd (execute_script WAIT_SCRIPT (wait_script_js (example_driver 0 1000 [] ''png'' (Inl WebDriverException)))
             (snd (WebDriverWait_until 1 IS_BOKEH_LOADED
                (is_bokeh_loaded_js (example_driver 0 1000 [] ''png'' (Inl WebDriverException)))
                (example_world (NonPlot ()))))))) = Inl TimeoutException
   \<and> fst (wait_until_render_complete (example_driver 0 1000 [] ''png'' (Inl WebDriverException)) 1
            (example_world (NonPlot ()))) = Inl WebDriverException"
  by (simp add: eval_defs)

lemma execute_script_frame:
  assumes "execute_script s op w = (r, w')"
  shows "log_records w' = log_records w" "files w' = files w" "writes w' = writes w"
    "events w' = events w @ [ExecuteScript s]"
  using assms by (auto simp: driver_defs split: prod.splits)

text \<open>
  Claim C7. On the three paths that read the console log (the timeout of the first
  phase, and the second phase ending with success or with a timeout), the messages of
  exactly those entries of the log that have level \<^verbatim>\<open>WARNING\<close>, \<^verbatim>\<open>ERROR\<close> or
  \<^verbatim>\<open>SEVERE\<close> are given to \<^verbatim>\<open>log.warning\<close>, in their order and after one heading line,
  before the function returns or raises; when no entry has such a level, nothing is
  logged for the console.
\<close>

theorem console_messages_surfaced:
  fixes driver :: "'d WebDriver" and w :: "('d, 'x) world" and timeout :: int
  defines "final \<equiv> wait_until_render_complete driver timeout w"
      and "surfaced \<equiv> \<lambda>logs.
             if filter (\<lambda>l. level l \<in> {''WARNING'', ''ERROR'', ''SEVERE''}) logs = [] then []
             else CONSOLE_WARNING # map message (filter (\<lambda>l. level l \<in> {''WARNING'', ''ERROR'', ''SEVERE''}) logs)"
  shows "(\<forall>w1 logs d.
            WebDriverWait_until timeout IS_BOKEH_LOADED (is_bokeh_loaded_js driver) w = (Inl TimeoutException, w1)
            \<and> get_log driver ''browser'' (browser w1) = (Inr logs, d)
            \<longrightarrow> fst final = Inl (RuntimeError NOT_LOADED_MESSAGE)
                \<and> log_records (snd final) = log_records w @ surfaced logs)
       \<and> (\<forall>v w1 u w2 v' w3 logs d.
            WebDriverWait_until timeout IS_BOKEH_LOADED (is_bokeh_loaded_js driver) w = (Inr v, w1)
            \<and> execute_script WAIT_SCRIPT (wait_script_js driver) w1 = (Inr u, w2)
            \<and> WebDriverWait_until timeout IS_BOKEH_RENDER_COMPLETE (is_bokeh_render_complete_js driver) w2 = (Inr v', w3)
            \<and> get_log driver ''browser'' (browser w3) = (Inr logs, d)
            \<longrightarrow> fst final = Inr ()
                \<and> log_records (snd final) = log_records w @ surfaced logs)
       \<and> (\<forall>v w1 u w2 w3 logs d.
            WebDriverWait_until timeout IS_BOKEH_LOADED (is_bokeh_loaded_js driver) w = (Inr v, w1)
            \<and> execute_script WAIT_SCRIPT (wait_script_js driver) w1 = (Inr u, w2)
            \<and> WebDriverWait_until timeout IS_BOKEH_RENDER_COMPLETE (is_bokeh_render_complete_js driver) w2
                 = (Inl TimeoutException, w3)
            \<and> get_log driver ''browser'' (browser w3) = (Inr logs, d)
            \<longrightarrow> fst final = Inr ()
                \<and> log_records (snd final) = log_records w @ [RENDER_TIMEOUT_WARNING] @ surfaced logs)"
proof (intro conjI allI impI; elim conjE)
  fix w1 logs d
  assume a: "WebDriverWait_until timeout IS_BOKEH_LOADED (is_bokeh_loaded_js driver) w = (Inl TimeoutException, w1)"
    and g: "get_log driver ''browser'' (browser w1) = (Inr logs, d)"
  have "log_records w1 = log_records (snd (WebDriverWait_until timeout IS_BOKEH_LOADED (is_bokeh_loaded_js driver) w))"
    by (simp add: a)
  then have l1: "log_records w1 = log_records w" by simp
  show "fst final = Inl (RuntimeError NOT_LOADED_MESSAGE)"
    by (simp add: final_def wait_load_timeout[OF a] log_console_read[OF g])
  show "log_records (snd final) = log_records w @ surfaced logs"
    by (simp add: final_def surfaced_def wait_load_timeout[OF a] log_console_read[OF g] l1)
next
  fix v w1 u w2 v' w3 logs d
  assume a: "WebDriverWait_until timeout IS_BOKEH_LOADED (is_bokeh_loaded_js driver) w = (Inr v, w1)"
    and b: "execute_script WAIT_SCRIPT (wait_script_js driver) w1 = (Inr u, w2)"
    and c: "WebDriverWait_until timeout IS_BOKEH_RENDER_COMPLETE (is_bokeh_render_complete_js driver) w2 = (Inr v', w3)"
    and g: "get_log driver ''browser'' (browser w3) = (Inr logs, d)"
  have "log_records w1 = log_records (snd (WebDriverWait_until timeout IS_BOKEH_LOADED (is_bokeh_loaded_js driver) w))"
    "log_records w3 = log_records (snd (WebDriverWait_until timeout IS_BOKEH_RENDER_COMPLETE (is_bokeh_render_complete_js driver) w2))"
    by (simp_all add: a c)
  with execute_script_frame(1)[OF b] have l3: "log_records w3 = log_records w" by simp
  show "fst final = Inr ()"
    by (simp add: final_def wait_render_phase[OF a b c] log_console_read[OF g])
  show "log_records (snd final) = log_records w @ surfaced logs"
    by (simp add: final_def surfaced_def wait_render_phase[OF a b c] log_console_read[OF g] l3)
next
  fix v w1 u w2 w3 logs d
  assume a: "WebDriverWait_until timeout IS_BOKEH_LOADED (is_bokeh_loaded_js driver) w = (Inr v, w1)"
    and b: "execute_script WAIT_SCRIPT (wait_script_js driver) w1 = (Inr u, w2)"
    and c: "WebDriverWait_until timeout IS_BOKEH_RENDER_COMPLETE (is_bokeh_render_complete_js driver) w2
              = (Inl TimeoutException, w3)"
    and g: "get_log driver ''browser'' (browser w3) = (Inr logs, d)"
  have "log_records w1 = log_records (snd (WebDriverWait_until timeout IS_BOKEH_LOADED (is_bokeh_loaded_js driver) w))"
    "log_records w3 = log_records (snd (WebDriverWait_until timeout IS_BOKEH_RENDER_COMPLETE (is_bokeh_render_complete_js driver) w2))"
    by (simp_all add: a c)
  with execute_script_frame(1)[OF b] have l3: "log_records w3 = log_records w" by simp
  define w3' where "w3' = w3\<lparr>log_records := log_records w3 @ [RENDER_TIMEOUT_WARNING]\<rparr>"
  from g have "get_log driver ''browser'' (browser w3') = (Inr logs, d)" by (simp add: w3'_def)
  note lc = log_console_read[OF this]
  have eq: "final = (case log_console driver w3' of (Inl e, w4) \<Rightarrow> (Inl e, w4) | (Inr x, w4) \<Rightarrow> (Inr (), w4))"
    by (simp add: final_def wait_render_phase[OF a b c] w3'_def split: prod.splits sum.splits)
  show "fst final = Inr ()" by (simp add: eq lc)
  have "log_records (snd final) = log_records w3' @ surfaced logs"
    by (simp add: eq lc surfaced_def)
  then show "log_records (snd final) = log_records w @ [RENDER_TIMEOUT_WARNING] @ surfaced logs"
    by (simp add: w3'_def l3)
qed

theorem console_messages_surfaced_witness:
  "log_records (snd (wait_until_render_complete
       (example_driver 1000 0 [] ''png''
          (Inr [\<lparr>level = ''SEVERE'', message = ''boom''\<rparr>, \<lparr>level = ''INFO'', message = ''hello''\<rparr>,
                \<lparr>level = ''WARNING'', message = ''careful''\<rparr>]))
       1 (example_world (NonPlot ()))))
     = [CONSOLE_WARNING, ''boom'', ''careful'']
   \<and> log_records (snd (wait_until_render_complete
       (example_driver 0 0 [] ''png''
          (Inr [\<lparr>level = ''SEVERE'', message = ''boom''\<rparr>, \<lparr>level = ''INFO'', message = ''hello''\<rparr>,
                \<lparr>level = ''WARNING'', message = ''careful''\<rparr>]))
       1 (example_world (NonPlot ()))))
     = [CONSOLE_WARNING, ''boom'', ''careful'']
   \<and> log_records (snd (wait_until_render_complete
       (example_driver 0 1000 [] ''png''
          (Inr [\<lparr>level = ''DEBUG'', message = ''boom''\<rparr>, \<lparr>level = ''INFO'', message = ''hello''\<rparr>]))
       1 (example_world (NonPlot ()))))
     = [RENDER_TIMEOUT_WARNING]"
proof -
  let ?logs = "[\<lparr>level = ''SEVERE'', message = ''boom''\<rparr>, \<lparr>level = ''INFO'', message = ''hello''\<rparr>,
                \<lparr>level = ''WARNING'', message = ''careful''\<rparr>]"
  let ?logs' = "[\<lparr>level = ''DEBUG'', message = ''boom''\<rparr>, \<lparr>level = ''INFO'', message = ''hello''\<rparr>]"
  let ?W = "example_world (NonPlot ())"
  let ?A = "example_driver 1000 0 [] ''png'' (Inr ?logs)"
  let ?B = "example_driver 0 0 [] ''png'' (Inr ?logs)"
  let ?C = "example_driver 0 1000 [] ''png'' (Inr ?logs')"
  let ?a1 = "WebDriverWait_until 1 IS_BOKEH_LOADED (is_bokeh_loaded_js ?A) ?W"
  let ?b1 = "WebDriverWait_until 1 IS_BOKEH_LOADED (is_bokeh_loaded_js ?B) ?W"
  let ?b2 = "execute_script WAIT_SCRIPT (wait_script_js ?B) (snd ?b1)"
  let ?b3 = "WebDriverWait_until 1 IS_BOKEH_RENDER_COMPLETE (is_bokeh_render_complete_js ?B) (snd ?b2)"
  let ?c1 = "WebDriverWait_until 1 IS_BOKEH_LOADED (is_bokeh_loaded_js ?C) ?W"
  let ?c2 = "execute_script WAIT_SCRIPT (wait_script_js ?C) (snd ?c1)"
  let ?c3 = "WebDriverWait_until 1 IS_BOKEH_RENDER_COMPLETE (is_bokeh_render_complete_js ?C) (snd ?c2)"
  have "fst ?a1 = Inl TimeoutException" by (simp add: eval_defs)
  then have a1: "?a1 = (Inl TimeoutException, snd ?a1)" by (simp add: prod_eq_iff)
  have ga: "get_log ?A ''browser'' (browser (snd ?a1)) = (Inr ?logs, browser (snd ?a1))"
    by (simp add: example_driver_def)
  have "fst ?b1 = Inr True" "fst ?b2 = Inr ()" "fst ?b3 = Inr True" by (simp_all add: eval_defs)
  then have b: "?b1 = (Inr True, snd ?b1)" "?b2 = (Inr (), snd ?b2)" "?b3 = (Inr True, snd ?b3)"
    by (simp_all add: prod_eq_iff)
  have gb: "get_log ?B ''browser'' (browser (snd ?b3)) = (Inr ?logs, browser (snd ?b3))"
    by (simp add: example_driver_def)
  have "fst ?c1 = Inr True" "fst ?c2 = Inr ()" "fst ?c3 = Inl TimeoutException" by (simp_all add: eval_defs)
  then have c: "?c1 = (Inr True, snd ?c1)" "?c2 = (Inr (), snd ?c2)" "?c3 = (Inl TimeoutException, snd ?c3)"
    by (simp_all add: prod_eq_iff)
  have gc: "get_log ?C ''browser'' (browser (snd ?c3)) = (Inr ?logs', browser (snd ?c3))"
    by (simp add: example_driver_def)
  from console_messages_surfaced[of 1 ?A ?W, THEN conjunct1, rule_format, OF conjI[OF a1 ga]]
  have "log_records (snd (wait_until_render_complete ?A 1 ?W)) = [CONSOLE_WARNING, ''boom'', ''careful'']"
    by (simp add: example_world_def)
  moreover
  from console_messages_surfaced[of 1 ?B ?W, THEN conjunct2, THEN conjunct1, rule_format,
      OF conjI[OF b(1) conjI[OF b(2) conjI[OF b(3) gb]]]]
  have "log_records (snd (wait_until_render_complete ?B 1 ?W)) = [CONSOLE_WARNING, ''boom'', ''careful'']"
    by (simp add: example_world_def)
  moreover
  from console_messages_surfaced[of 1 ?C ?W, THEN conjunct2, THEN conjunct2, rule_format,
      OF conjI[OF c(1) conjI[OF c(2) conjI[OF c(3) gc]]]]
  have "log_records (snd (wait_until_render_complete ?C 1 ?W)) = [RENDER_TIMEOUT_WARNING]"
    by (simp add: example_world_def)
  ultimately show ?thesis by simp
qed

text \<open>
  Claim C8. Every run of \<open>wait_until_render_complete\<close> starts with a polling phase on
  the "library loaded" script: the script is run again and again, with one sleep of
  the polling interval after every run that did not give true, until a run gives true
  (or an exception the loop does not ignore) or until, after a sleep, the timeout has
  elapsed; there are at most ten sleeps for every second of the timeout before the last
  run. Only when this phase has ended with the value true, the function runs
  \<^verbatim>\<open>_WAIT_SCRIPT\<close>, and when that has returned, a polling phase of the same kind on the
  "render complete" script always follows, and after it the read of the console log.
  When the first phase has ended otherwise, the function raises and the "render
  complete" script is never run. No other condition is polled.
\<close>

theorem polling_order:
  fixes driver :: "'d WebDriver" and w :: "('d, 'x) world" and timeout :: int
  defines "final \<equiv> wait_until_render_complete driver timeout w"
  shows "\<exists>r1 w1 n1 b1.
      polling_phase timeout IS_BOKEH_LOADED (is_bokeh_loaded_js driver) w (r1, w1) n1 b1
    \<and> (case r1 of
         Inl e \<Rightarrow>
           (\<exists>e'. fst final = Inl e')
           \<and> events (snd final) = events w @ phase_trace IS_BOKEH_LOADED n1 b1
                                   @ (if e = TimeoutException then [GetLog ''browser''] else [])
       | Inr v \<Rightarrow>
           v \<and> b1 = False
           \<and> (case execute_script WAIT_SCRIPT (wait_script_js driver) w1 of
                (Inl e, w2) \<Rightarrow>
                  final = (Inl e, w2)
                  \<and> events w2 = events w @ phase_trace IS_BOKEH_LOADED n1 False @ [ExecuteScript WAIT_SCRIPT]
              | (Inr u, w2) \<Rightarrow>
                  (\<exists>r3 w3 n2 b2.
                     polling_phase timeout IS_BOKEH_RENDER_COMPLETE (is_bokeh_render_complete_js driver)
                       w2 (r3, w3) n2 b2
                   \<and> events (snd final) =
                       events w @ phase_trace IS_BOKEH_LOADED n1 False @ [ExecuteScript WAIT_SCRIPT]
                       @ phase_trace IS_BOKEH_RENDER_COMPLETE n2 b2 @ [GetLog ''browser''])))"
proof -
  obtain r1 w1 where u1: "WebDriverWait_until timeout IS_BOKEH_LOADED (is_bokeh_loaded_js driver) w = (r1, w1)"
    by (cases "WebDriverWait_until timeout IS_BOKEH_LOADED (is_bokeh_loaded_js driver) w")
  from WebDriverWait_until_phase[of timeout IS_BOKEH_LOADED "is_bokeh_loaded_js driver" w] u1
  obtain n1 b1 where
    p1: "polling_phase timeout IS_BOKEH_LOADED (is_bokeh_loaded_js driver) w (r1, w1) n1 b1"
    by auto
  from polling_phase_events[OF p1] have e1: "events w1 = events w @ phase_trace IS_BOKEH_LOADED n1 b1"
    by simp
  have rest: "case r1 of
         Inl e \<Rightarrow>
           (\<exists>e'. fst final = Inl e')
           \<and> events (snd final) = events w @ phase_trace IS_BOKEH_LOADED n1 b1
                                   @ (if e = TimeoutException then [GetLog ''browser''] else [])
       | Inr v \<Rightarrow>
           v \<and> b1 = False
           \<and> (case execute_script WAIT_SCRIPT (wait_script_js driver) w1 of
                (Inl e, w2) \<Rightarrow>
                  final = (Inl e, w2)
                  \<and> events w2 = events w @ phase_trace IS_BOKEH_LOADED n1 False @ [ExecuteScript WAIT_SCRIPT]
              | (Inr u, w2) \<Rightarrow>
                  (\<exists>r3 w3 n2 b2.
                     polling_phase timeout IS_BOKEH_RENDER_COMPLETE (is_bokeh_render_complete_js driver)
                       w2 (r3, w3) n2 b2
                   \<and> events (snd final) =
                       events w @ phase_trace IS_BOKEH_LOADED n1 False @ [ExecuteScript WAIT_SCRIPT]
                       @ phase_trace IS_BOKEH_RENDER_COMPLETE n2 b2 @ [GetLog ''browser'']))"
  proof (cases r1)
    case (Inl e)
    show ?thesis
    proof (cases "e = TimeoutException")
      case True
      obtain r w2 where lc: "log_console driver w1 = (r, w2)" by (cases "log_console driver w1")
      have "events (snd (log_console driver w1)) = events w2" by (simp add: lc)
      then have ev: "events w2 = events w1 @ [GetLog ''browser'']" by (simp add: log_console_events)
      from u1 Inl True have "final =
           (case r of Inl e \<Rightarrow> Inl e | Inr u \<Rightarrow> Inl (RuntimeError NOT_LOADED_MESSAGE), w2)"
        by (simp add: final_def wait_load_timeout lc split: sum.splits)
      then have "(\<exists>e'. fst final = Inl e') \<and> events (snd final) = events w2"
        by (cases r) simp_all
      with Inl True ev e1 show ?thesis by simp
    next
      case False
      with Inl u1 have "final = (Inl e, w1)" by (simp add: final_def wait_load_error)
      with Inl False e1 show ?thesis by simp
    qed
  next
    case (Inr v)
    from polling_phase_result[OF p1, of v] Inr have v: "v" "b1 = False" by simp_all
    note e1' = e1[unfolded v(2)]
    obtain r2 w2 where ws: "execute_script WAIT_SCRIPT (wait_script_js driver) w1 = (r2, w2)"
      by (cases "execute_script WAIT_SCRIPT (wait_script_js driver) w1")
    note e2 = execute_script_frame(4)[OF ws]
    have "case (r2, w2) of
                (Inl e, w2) \<Rightarrow>
                  final = (Inl e, w2)
                  \<and> events w2 = events w @ phase_trace IS_BOKEH_LOADED n1 False @ [ExecuteScript WAIT_SCRIPT]
              | (Inr u, w2) \<Rightarrow>
                  (\<exists>r3 w3 n2 b2.
                     polling_phase timeout IS_BOKEH_RENDER_COMPLETE (is_bokeh_render_complete_js driver)
                       w2 (r3, w3) n2 b2
                   \<and> events (snd final) =
                       events w @ phase_trace IS_BOKEH_LOADED n1 False @ [ExecuteScript WAIT_SCRIPT]
                       @ phase_trace IS_BOKEH_RENDER_COMPLETE n2 b2 @ [GetLog ''browser''])"
    proof (cases r2)
      case (Inl e)
      with u1 Inr ws have "final = (Inl e, w2)" by (simp add: final_def wait_script_error)
      with Inl e2 e1' show ?thesis by simp
    next
      case r2: (Inr u)
      obtain r3 w3 where u3:
        "WebDriverWait_until timeout IS_BOKEH_RENDER_COMPLETE (is_bokeh_render_complete_js driver) w2 = (r3, w3)"
        by (cases "WebDriverWait_until timeout IS_BOKEH_RENDER_COMPLETE (is_bokeh_render_complete_js driver) w2")
      from WebDriverWait_until_phase[of timeout IS_BOKEH_RENDER_COMPLETE "is_bokeh_render_complete_js driver" w2] u3
      obtain n2 b2 where
        p2: "polling_phase timeout IS_BOKEH_RENDER_COMPLETE (is_bokeh_render_complete_js driver) w2 (r3, w3) n2 b2"
        by auto
      from polling_phase_events[OF p2] have e3: "events w3 = events w2 @ phase_trace IS_BOKEH_RENDER_COMPLETE n2 b2"
        by simp
      define w3' where "w3' = (if r3 = Inl TimeoutException
                    then w3\<lparr>log_records := log_records w3 @ [RENDER_TIMEOUT_WARNING]\<rparr> else w3)"
      have "events (snd final) = events (snd (log_console driver w3'))"
        using wait_render_phase[OF u1[unfolded Inr] ws[unfolded r2] u3]
        by (simp add: final_def w3'_def split: prod.splits sum.splits)
      also have "\<dots> = events w3' @ [GetLog ''browser'']" by (simp add: log_console_events)
      also have "events w3' = events w3" by (simp add: w3'_def)
      finally have "events (snd final) =
                       events w @ phase_trace IS_BOKEH_LOADED n1 False @ [ExecuteScript WAIT_SCRIPT]
                       @ phase_trace IS_BOKEH_RENDER_COMPLETE n2 b2 @ [GetLog ''browser'']"
        by (simp add: e3 e2 e1')
      with p2 r2 show ?thesis by auto
    qed
    with v Inr ws show ?thesis by simp
  qed
  from p1 rest show ?thesis by blast
qed

theorem polling_order_witness:
  "events (snd (wait_until_render_complete (example_driver 2 1000 [] ''png'' (Inr [])) 1
             (example_world (NonPlot ()))))
     = phase_trace IS_BOKEH_LOADED 2 False @ [ExecuteScript WAIT_SCRIPT]
       @ phase_trace IS_BOKEH_RENDER_COMPLETE 9 True @ [GetLog ''browser'']
   \<and> fst (wait_until_render_complete (example_driver 2 1000 [] ''png'' (Inr [])) 1
             (example_world (NonPlot ()))) = Inr ()
   \<and> polling_phase 1 IS_BOKEH_LOADED
         (is_bokeh_loaded_js (example_driver 2 1000 [] ''png'' (Inr []))) (example_world (NonPlot ()))
         (WebDriverWait_until 1 IS_BOKEH_LOADED (is_bokeh_loaded_js (example_driver 2 1000 [] ''png'' (Inr [])))
            (example_world (NonPlot ()))) 2 False
   \<and> (\<exists>r1 w1 n1 b1. polling_phase 1 IS_BOKEH_LOADED
         (is_bokeh_loaded_js (example_driver 2 1000 [] ''png'' (Inr []))) (example_world (NonPlot ()))
         (r1, w1) n1 b1)"
proof -
  let ?D = "example_driver 2 1000 [] ''png'' (Inr [])"
  let ?W = "example_world (NonPlot ())"
  let ?ev = "events (snd (wait_until_render_complete ?D 1 ?W))"
  have e: "?ev = phase_trace IS_BOKEH_LOADED 2 False @ [ExecuteScript WAIT_SCRIPT]
       @ phase_trace IS_BOKEH_RENDER_COMPLETE 9 True @ [GetLog ''browser'']"
    "fst (wait_until_render_complete ?D 1 ?W) = Inr ()"
    by (simp_all add: eval_defs phase_trace_def numeral_eq_Suc)
  have p: "polling_phase 1 IS_BOKEH_LOADED (is_bokeh_loaded_js ?D) ?W
             (WebDriverWait_until 1 IS_BOKEH_LOADED (is_bokeh_loaded_js ?D) ?W) 2 False"
    by (simp add: polling_phase_def All_less_Suc eval_defs poll_round_def not_yet_def phase_trace_def
          numeral_2_eq_2)
  from polling_order[where driver = ?D and w = ?W and timeout = 1] obtain r1 w1 n1 b1 where
    "polling_phase 1 IS_BOKEH_LOADED (is_bokeh_loaded_js ?D) ?W (r1, w1) n1 b1"
    by blast
  then have "\<exists>r1 w1 n1 b1. polling_phase 1 IS_BOKEH_LOADED (is_bokeh_loaded_js ?D) ?W (r1, w1) n1 b1"
    by blast
  with e p show ?thesis by simp
qed

section \<open>Paths\<close>

lemma isabs_Cons [simp]: "isabs (c # cs) = (c = CHR ''/'')"
  by (simp add: isabs_def)

lemma isabs_Nil [simp]: "\<not> isabs []"
  by (simp add: isabs_def)

lemma isabs_replicate: "0 < n \<Longrightarrow> isabs (replicate n CHR ''/'' @ x)"
  by (cases n) simp_all

lemma isabs_normpath:
  assumes "isabs p"
  shows "isabs (normpath p)"
proof -
  from assms have "p \<noteq> []" by auto
  define n :: nat where "n = (if take 2 p = ''//'' \<and> take 3 p \<noteq> ''///'' then 2 else 1)"
  define q where "q = replicate n CHR ''/'' @ join_sep ''/'' (foldl (norm_step n) [] (split_sep CHR ''/'' p))"
  have "0 < n" by (simp add: n_def)
  then have q: "isabs q" unfolding q_def by (rule isabs_replicate)
  then have "q \<noteq> []" by auto
  have "normpath p = (if q = [] then ''.'' else q)"
    using assms \<open>p \<noteq> []\<close> by (simp add: normpath_def Let_def q_def n_def)
  with q \<open>q \<noteq> []\<close> show ?thesis by simp
qed

lemma isabs_join: "isabs a \<Longrightarrow> isabs (join a b)"
  by (cases a) (auto simp: join_def)

lemma isabs_abspath: "isabs (abspath E p)"
  by (auto simp: abspath_def getcwd_def intro!: isabs_normpath isabs_join)

section \<open>Finding the extension\<close>

lemma take_eq_prefix: "take (length sub) s = sub \<longleftrightarrow> (\<exists>post. s = sub @ post)"
proof
  assume "take (length sub) s = sub"
  then have "s = sub @ drop (length sub) s" by (metis append_take_drop_id)
  then show "\<exists>post. s = sub @ post" ..
next
  assume "\<exists>post. s = sub @ post"
  then show "take (length sub) s = sub" by auto
qed

lemma find_from_spec:
  "(find_from sub s i = - 1 \<and> (\<forall>pre post. s \<noteq> pre @ sub @ post))
   \<or> (\<exists>pre post. s = pre @ sub @ post \<and> find_from sub s i = int (i + length pre)
        \<and> (\<forall>pre' post'. s = pre' @ sub @ post' \<longrightarrow> length pre \<le> length pre'))"
proof (induction s arbitrary: i)
  case Nil
  show ?case by (cases "sub = []") auto
next
  case (Cons c cs)
  show ?case
  proof (cases "take (length sub) (c # cs) = sub")
    case True
    then obtain post where "c # cs = sub @ post" unfolding take_eq_prefix by blast
    then have "c # cs = [] @ sub @ post" by simp
    moreover have "find_from sub (c # cs) i = int (i + length ([]::string))" using True by simp
    ultimately show ?thesis
      by (intro disjI2 exI[of _ "[]"] exI[of _ post]) simp
  next
    case False
    then have nopre: "\<And>post. c # cs \<noteq> sub @ post" unfolding take_eq_prefix by blast
    have rec: "find_from sub (c # cs) i = find_from sub cs (Suc i)" using False by simp
    have shift: "\<And>pre' post'. c # cs = pre' @ sub @ post' \<Longrightarrow> \<exists>pre''. pre' = c # pre'' \<and> cs = pre'' @ sub @ post'"
    proof -
      fix pre' post' assume a: "c # cs = pre' @ sub @ post'"
      show "\<exists>pre''. pre' = c # pre'' \<and> cs = pre'' @ sub @ post'"
      proof (cases pre')
        case Nil
        with a nopre show ?thesis by simp
      next
        case (Cons x xs)
        with a show ?thesis by simp
      qed
    qed
    from Cons.IH[of "Suc i"] show ?thesis
    proof
      assume none: "find_from sub cs (Suc i) = - 1 \<and> (\<forall>pre post. cs \<noteq> pre @ sub @ post)"
      have "\<forall>pre post. c # cs \<noteq> pre @ sub @ post"
      proof (intro allI notI)
        fix pre post assume "c # cs = pre @ sub @ post"
        from shift[OF this] none show False by blast
      qed
      with none rec show ?thesis by simp
    next
      assume "\<exists>pre post. cs = pre @ sub @ post \<and> find_from sub cs (Suc i) = int (Suc i + length pre)
        \<and> (\<forall>pre' post'. cs = pre' @ sub @ post' \<longrightarrow> length pre \<le> length pre')"
      then obtain pre post where p: "cs = pre @ sub @ post"
        "find_from sub cs (Suc i) = int (Suc i + length pre)"
        "\<forall>pre' post'. cs = pre' @ sub @ post' \<longrightarrow> length pre \<le> length pre'" by blast
      have "c # cs = (c # pre) @ sub @ post" using p(1) by simp
      moreover have "find_from sub (c # cs) i = int (i + length (c # pre))" using rec p(2) by simp
      moreover have "\<forall>pre' post'. c # cs = pre' @ sub @ post' \<longrightarrow> length (c # pre) \<le> length pre'"
      proof (intro allI impI)
        fix pre' post' assume "c # cs = pre' @ sub @ post'"
        from shift[OF this] obtain pre'' where "pre' = c # pre''" "cs = pre'' @ sub @ post'" by blast
        with p(3) show "length (c # pre) \<le> length pre'" by auto
      qed
      ultimately show ?thesis by blast
    qed
  qed
qed

lemma py_find_found:
  assumes "s = pre0 @ sub @ post0"
  shows "\<exists>pre post. s = pre @ sub @ post \<and> py_find s sub = int (length pre)
        \<and> (\<forall>pre' post'. s = pre' @ sub @ post' \<longrightarrow> length pre \<le> length pre')"
  using find_from_spec[of sub s 0] assms by (auto simp: py_find_def)

lemma slices_id: "slice_to s k @ slice_from s k = s"
  by (simp add: slice_to_def slice_from_def)

lemma slices_at: "slice_to (pre @ rest) (int (length pre)) = pre" "slice_from (pre @ rest) (int (length pre)) = rest"
  by (simp_all add: slice_to_def slice_from_def)

lemma str_nat_nonempty: "str_nat n \<noteq> []"
  by (subst str_nat.simps) simp

lemma length_slices: "length (slice_to s k) + length (slice_from s k) = length s"
  using slices_id[of s k] by (metis length_append)

lemma next_filename_longer: "0 < i \<Longrightarrow> length filename < length (next_filename i filename)"
  using length_slices[of filename "py_find filename ''.svg''"]
  by (simp add: next_filename_def Let_def)

lemma next_filename_insert:
  assumes "0 < i" "filename = pre0 @ ''.svg'' @ post0"
  shows "\<exists>pre post. filename = pre @ ''.svg'' @ post
           \<and> (\<forall>pre' post'. filename = pre' @ ''.svg'' @ post' \<longrightarrow> length pre \<le> length pre')
           \<and> next_filename i filename = pre @ ''_'' @ str_nat i @ ''.svg'' @ post"
proof -
  from py_find_found[OF assms(2)] obtain pre post where
    p: "filename = pre @ ''.svg'' @ post" "py_find filename ''.svg'' = int (length pre)"
      "\<forall>pre' post'. filename = pre' @ ''.svg'' @ post' \<longrightarrow> length pre \<le> length pre'" by blast
  have "slice_to filename (int (length pre)) = pre"
    "slice_from filename (int (length pre)) = ''.svg'' @ post"
    using slices_at[of pre "''.svg'' @ post"] by (simp_all add: p(1))
  with assms(1) p(2) have "next_filename i filename = pre @ ''_'' @ str_nat i @ ''.svg'' @ post"
    by (simp add: next_filename_def Let_def)
  with p(1,3) show ?thesis by blast
qed


section \<open>The names of the SVG files\<close>

lemma export_svgs_loop_Cons:
  "export_svgs_loop E i f fs (svg # svgs) =
     bind_io (write_file E (next_filename i f) svg) (\<lambda>_.
       export_svgs_loop E (Suc i) (next_filename i f) (fs @ [next_filename i f]) svgs)"
  by (simp add: next_filename_def Let_def)

declare export_svgs_loop.simps(2) [simp del]

lemma export_svgs_loop_result:
  "export_svgs_loop E i f fs svgs w = (Inr names, w') \<Longrightarrow>
     names = fs @ loop_filenames i f svgs \<and> writes w' = writes w @ zip (loop_filenames i f svgs) svgs"
proof (induction svgs arbitrary: i f fs w)
  case Nil
  then show ?case by (simp add: return_io_def)
next
  case (Cons svg svgs)
  let ?n = "next_filename i f"
  show ?case
  proof (cases "can_open E ?n")
    case False
    with Cons.prems show ?thesis
      by (simp add: export_svgs_loop_Cons bind_io_def write_file_def)
  next
    case True
    define w1 where "w1 = w\<lparr>files := (files w)(?n \<mapsto> svg), writes := writes w @ [(?n, svg)]\<rparr>"
    from True Cons.prems have "export_svgs_loop E (Suc i) ?n (fs @ [?n]) svgs w1 = (Inr names, w')"
      by (simp add: export_svgs_loop_Cons bind_io_def write_file_def w1_def)
    from Cons.IH[OF this] show ?thesis by (simp add: w1_def)
  qed
qed

lemma export_svgs_loop_returns:
  "list_all (can_open E) (loop_filenames i f svgs) \<Longrightarrow>
     fst (export_svgs_loop E i f fs svgs w) = Inr (fs @ loop_filenames i f svgs)"
proof (induction svgs arbitrary: i f fs w)
  case Nil
  then show ?case by (simp add: return_io_def)
next
  case (Cons svg svgs)
  then show ?case
    by (simp add: export_svgs_loop_Cons bind_io_def write_file_def)
qed

lemma export_svgs_loop_written:
  "export_svgs_loop E i f fs svgs w = (Inr names, w') \<Longrightarrow> list_all (can_open E) (loop_filenames i f svgs)"
proof (induction svgs arbitrary: i f fs w)
  case Nil
  then show ?case by simp
next
  case (Cons svg svgs)
  let ?n = "next_filename i f"
  show ?case
  proof (cases "can_open E ?n")
    case False
    with Cons.prems show ?thesis
      by (simp add: export_svgs_loop_Cons bind_io_def write_file_def)
  next
    case True
    define w1 where "w1 = w\<lparr>files := (files w)(?n \<mapsto> svg), writes := writes w @ [(?n, svg)]\<rparr>"
    from True Cons.prems have "export_svgs_loop E (Suc i) ?n (fs @ [?n]) svgs w1 = (Inr names, w')"
      by (simp add: export_svgs_loop_Cons bind_io_def write_file_def w1_def)
    from Cons.IH[OF this] True show ?thesis by simp
  qed
qed

lemma length_loop_filenames [simp]: "length (loop_filenames i f svgs) = length svgs"
  by (induction svgs arbitrary: i f) simp_all

text \<open>
  Inserting the index keeps the first character of a name that can be opened, and
  never puts a slash in front.
\<close>

lemma next_filename_isabs:
  assumes "f \<noteq> []" "last f \<noteq> CHR ''/''"
  shows "isabs (next_filename i f) = isabs f"
proof (cases "i = 0")
  case True
  then show ?thesis by (simp add: next_filename_def)
next
  case False
  let ?idx = "py_find f ''.svg''"
  have n: "next_filename i f = slice_to f ?idx @ ''_'' @ str_nat i @ slice_from f ?idx"
    using False by (simp add: next_filename_def Let_def)
  from assms(1) obtain c cs where f: "f = c # cs" by (cases f) auto
  from find_from_spec[of "''.svg''" f 0]
  consider (none) "?idx = - 1"
    | (found) pre post where "f = pre @ ''.svg'' @ post" "?idx = int (length pre)"
    by (auto simp: py_find_def)
  then show ?thesis
  proof cases
    case none
    show ?thesis
    proof (cases cs)
      case Nil
      with f assms(2) have c: "c \<noteq> CHR ''/''" by simp
      from f Nil none have "slice_to f ?idx = []" by (simp add: slice_to_def)
      with c f Nil show ?thesis unfolding n by simp
    next
      case (Cons c' cs')
      with f have k: "nat (int (length f) + - 1) = Suc (length cs')" by simp
      from none have "slice_to f ?idx = take (nat (int (length f) + - 1)) f"
        by (simp add: slice_to_def)
      then have "slice_to f ?idx = c # take (length cs') cs"
        unfolding k by (simp add: f)
      with f show ?thesis unfolding n by simp
    qed
  next
    case found
    from slices_at(1)[of pre "''.svg'' @ post"] found have st: "slice_to f ?idx = pre" by simp
    show ?thesis
    proof (cases pre)
      case Nil
      with found(1) have "isabs f = False" by simp
      with Nil st show ?thesis unfolding n by simp
    next
      case (Cons x xs)
      with found(1) have "isabs f = (x = CHR ''/'')" by simp
      with Cons st show ?thesis unfolding n by simp
    qed
  qed
qed

lemma loop_filenames_isabs:
  "list_all (can_open E) (loop_filenames i f svgs) \<Longrightarrow> i = 0 \<or> (f \<noteq> [] \<and> last f \<noteq> CHR ''/'') \<Longrightarrow>
     n \<in> set (loop_filenames i f svgs) \<Longrightarrow> isabs n = isabs f"
proof (induction svgs arbitrary: i f)
  case Nil
  then show ?case by simp
next
  case (Cons svg svgs)
  let ?n = "next_filename i f"
  have first: "isabs ?n = isabs f"
  proof (cases "i = 0")
    case True
    then show ?thesis by (simp add: next_filename_def)
  next
    case False
    with Cons.prems(2) show ?thesis by (simp add: next_filename_isabs)
  qed
  from Cons.prems(1) have "can_open E ?n"
    and rest: "list_all (can_open E) (loop_filenames (Suc i) ?n svgs)"
    by simp_all
  then have o: "?n \<noteq> [] \<and> last ?n \<noteq> CHR ''/''" by (simp add: can_open_def)
  from Cons.prems(3) consider "n = ?n" | "n \<in> set (loop_filenames (Suc i) ?n svgs)" by auto
  then show ?case
  proof cases
    case 1
    with first show ?thesis by simp
  next
    case 2
    from Cons.IH[OF rest _ 2] o first show ?thesis by simp
  qed
qed

lemma loop_filenames_longer:
  "p \<in> set (loop_filenames (Suc i) f svgs) \<Longrightarrow> length f < length p"
proof (induction svgs arbitrary: i f)
  case Nil
  then show ?case by simp
next
  case (Cons svg svgs)
  have l: "length f < length (next_filename (Suc i) f)" by (rule next_filename_longer) simp
  from Cons.prems consider "p = next_filename (Suc i) f"
    | "p \<in> set (loop_filenames (Suc (Suc i)) (next_filename (Suc i) f) svgs)" by auto
  then show ?case
  proof cases
    case 1
    with l show ?thesis by simp
  next
    case 2
    from Cons.IH[OF this] l show ?thesis by simp
  qed
qed

lemma distinct_loop_filenames: "distinct (loop_filenames i f svgs)"
proof (induction svgs arbitrary: i f)
  case Nil
  then show ?case by simp
next
  case (Cons svg svgs)
  have "next_filename i f \<notin> set (loop_filenames (Suc i) (next_filename i f) svgs)"
    using loop_filenames_longer[of "next_filename i f" i "next_filename i f" svgs] by auto
  with Cons.IH show ?case by simp
qed

lemma loop_filenames_nth_Suc:
  "Suc k < length svgs \<Longrightarrow>
     loop_filenames i f svgs ! Suc k = next_filename (i + Suc k) (loop_filenames i f svgs ! k)"
proof (induction svgs arbitrary: i f k)
  case Nil
  then show ?case by simp
next
  case (Cons svg svgs)
  show ?case
  proof (cases k)
    case 0
    with Cons.prems obtain svg' svgs' where "svgs = svg' # svgs'" by (cases svgs) auto
    with 0 show ?thesis by simp
  next
    case (Suc k')
    with Cons.prems have "Suc k' < length svgs" by simp
    from Cons.IH[OF this, of "Suc i" "next_filename i f"] Suc show ?thesis by simp
  qed
qed

lemma next_filename_has_svg:
  assumes "f = pre0 @ ''.svg'' @ post0"
  shows "\<exists>pre post. next_filename i f = pre @ ''.svg'' @ post"
proof (cases "i = 0")
  case True
  with assms show ?thesis by (auto simp: next_filename_def)
next
  case False
  then have "0 < i" by simp
  from next_filename_insert[OF this assms] obtain pre post where
    "next_filename i f = pre @ ''_'' @ str_nat i @ ''.svg'' @ post" by blast
  then have "next_filename i f = (pre @ ''_'' @ str_nat i) @ ''.svg'' @ post" by simp
  then show ?thesis by blast
qed

lemma loop_filenames_have_svg:
  "f = pre0 @ ''.svg'' @ post0 \<Longrightarrow> k < length svgs \<Longrightarrow>
     \<exists>pre post. loop_filenames i f svgs ! k = pre @ ''.svg'' @ post"
proof (induction svgs arbitrary: i f k pre0 post0)
  case Nil
  then show ?case by simp
next
  case (Cons svg svgs)
  from next_filename_has_svg[OF Cons.prems(1), of i] obtain pre post where
    n: "next_filename i f = pre @ ''.svg'' @ post" by blast
  show ?case
  proof (cases k)
    case 0
    with n show ?thesis by auto
  next
    case (Suc k')
    with Cons.prems have "k' < length svgs" by simp
    from Cons.IH[OF n this, of "Suc i"] Suc show ?thesis by simp
  qed
qed

lemma loop_filenames_first: "svgs \<noteq> [] \<Longrightarrow> loop_filenames 0 f svgs ! 0 = f"
  by (cases svgs) (simp_all add: next_filename_def)

lemma export_svgs_returns:
  assumes "get_svgs E webdriver timeout [''height'' \<mapsto> height, ''width'' \<mapsto> width] w = (Inr svgs, w1)"
      and "svgs \<noteq> []"
      and "list_all (can_open E) (loop_filenames 0 filename svgs)"
  shows "fst (export_svgs E (Some filename) height width webdriver timeout w)
           = Inr (Some (loop_filenames 0 filename svgs))"
proof -
  obtain r w2 where l: "export_svgs_loop E 0 filename [] svgs w1 = (r, w2)"
    by (cases "export_svgs_loop E 0 filename [] svgs w1")
  with export_svgs_loop_returns[OF assms(3), of "[]" w1]
  have "r = Inr (loop_filenames 0 filename svgs)" by simp
  with assms(1,2) l show ?thesis
    by (simp add: export_svgs_def io_defs)
qed

text \<open>
  Claim C10. Let the rendering give a non-empty list of \<open>n\<close> SVG strings and let the
  given filename contain \<^verbatim>\<open>.svg\<close>. Whenever \<open>export_svgs\<close> returns, it returns \<open>n\<close>
  pairwise distinct names and has written exactly the \<open>n\<close> files of these names, item
  \<open>i\<close> under name \<open>i\<close>. The first name is the given filename, and name \<open>i + 1\<close> is
  name \<open>i\<close> with \<^verbatim>\<open>_\<close> and the decimal number \<open>i + 1\<close> inserted right before the first
  occurrence of \<^verbatim>\<open>.svg\<close> in it.
\<close>

theorem export_svgs_filenames:
  assumes "get_svgs E webdriver timeout [''height'' \<mapsto> height, ''width'' \<mapsto> width] w = (Inr svgs, w1)"
      and "svgs \<noteq> []"
      and "filename = pre0 @ ''.svg'' @ post0"
      and "export_svgs E (Some filename) height width webdriver timeout w = (Inr r, w2)"
  shows "\<exists>names. r = Some names \<and> length names = length svgs \<and> distinct names
           \<and> writes w2 = writes w1 @ zip names svgs
           \<and> names ! 0 = filename
           \<and> (\<forall>i. Suc i < length svgs \<longrightarrow>
                (\<exists>pre post. names ! i = pre @ ''.svg'' @ post
                   \<and> (\<forall>pre' post'. names ! i = pre' @ ''.svg'' @ post' \<longrightarrow> length pre \<le> length pre')
                   \<and> names ! Suc i = pre @ ''_'' @ str_nat (Suc i) @ ''.svg'' @ post))"
proof -
  let ?names = "loop_filenames 0 filename svgs"
  from assms(1,2,4) obtain names where
    loop: "export_svgs_loop E 0 filename [] svgs w1 = (Inr names, w2)" and r: "r = Some names"
    by (auto simp: export_svgs_def io_defs split: prod.splits sum.splits)
  from export_svgs_loop_result[OF loop] have
    names: "names = ?names" and wr: "writes w2 = writes w1 @ zip ?names svgs" by simp_all
  have step: "\<exists>pre post. ?names ! i = pre @ ''.svg'' @ post
                   \<and> (\<forall>pre' post'. ?names ! i = pre' @ ''.svg'' @ post' \<longrightarrow> length pre \<le> length pre')
                   \<and> ?names ! Suc i = pre @ ''_'' @ str_nat (Suc i) @ ''.svg'' @ post"
    if i: "Suc i < length svgs" for i
  proof -
    from i have "i < length svgs" by simp
    from loop_filenames_have_svg[OF assms(3) this, of 0] obtain pre1 post1 where
      "?names ! i = pre1 @ ''.svg'' @ post1" by blast
    from next_filename_insert[OF _ this, of "Suc i"] loop_filenames_nth_Suc[OF i, of 0 filename]
    show ?thesis by simp
  qed
  show ?thesis
    using r wr step assms(2)
    by (intro exI[of _ ?names]) (simp add: names distinct_loop_filenames loop_filenames_first)
qed


theorem export_svgs_filenames_witness:
  "fst (export_svgs (example_env (\<lambda>p. True) (\<lambda>p. True)) (Some ''out/f.svg'') None None
          (Some (example_driver 0 0 [''<svg>a</svg>'', ''<svg>b</svg>'', ''<svg>c</svg>''] ''png'' (Inr [])))
          1 (example_world (NonPlot ())))
     = Inr (Some [''out/f.svg'', ''out/f_1.svg'', ''out/f_1_2.svg''])
   \<and> writes (snd (export_svgs (example_env (\<lambda>p. True) (\<lambda>p. True)) (Some ''out/f.svg'') None None
          (Some (example_driver 0 0 [''<svg>a</svg>'', ''<svg>b</svg>'', ''<svg>c</svg>''] ''png'' (Inr [])))
          1 (example_world (NonPlot ()))))
     = [(''/tmp/bokeh0001.html'', ''<html></html>''), (''out/f.svg'', ''<svg>a</svg>''),
        (''out/f_1.svg'', ''<svg>b</svg>''), (''out/f_1_2.svg'', ''<svg>c</svg>'')]
   \<and> distinct [''out/f.svg'', ''out/f_1.svg'', ''out/f_1_2.svg'']"
proof -
  let ?E = "example_env (\<lambda>p. True) (\<lambda>p. True)"
  let ?svgs = "[''<svg>a</svg>'', ''<svg>b</svg>'', ''<svg>c</svg>'']"
  let ?D = "Some (example_driver 0 0 ?svgs ''png'' (Inr []))"
  let ?W = "example_world (NonPlot ())"
  let ?g = "get_svgs ?E ?D 1 [''height'' \<mapsto> None, ''width'' \<mapsto> None] ?W"
  let ?x = "export_svgs ?E (Some ''out/f.svg'') None None ?D 1 ?W"
  let ?names = "[''out/f.svg'', ''out/f_1.svg'', ''out/f_1_2.svg'']"
  have "fst ?g = Inr ?svgs" by (simp add: eval_defs)
  then have h1: "?g = (Inr ?svgs, snd ?g)" by (simp add: prod_eq_iff)
  have h2: "?svgs \<noteq> []" by simp
  have h3: "''out/f.svg'' = ''out/f'' @ ''.svg'' @ []" by simp
  have x: "fst ?x = Inr (Some ?names)"
    "writes (snd ?x) = [(''/tmp/bokeh0001.html'', ''<html></html>''), (''out/f.svg'', ''<svg>a</svg>''),
        (''out/f_1.svg'', ''<svg>b</svg>''), (''out/f_1_2.svg'', ''<svg>c</svg>'')]"
    by (simp_all add: eval_defs export_svgs_loop.simps py_find_def slice_to_def slice_from_def)
  then have h4: "?x = (Inr (Some ?names), snd ?x)" by (simp add: prod_eq_iff)
  from export_svgs_filenames[OF h1 h2 h3 h4] have "distinct ?names" by blast
  with x show ?thesis by simp
qed

section \<open>The temporary file\<close>

lemma TempFile_exit_removes:
  assumes "fd tmp = Some n" "path tmp = Some p" "\<not> closed tmp"
  shows "fst (TempFile_exit E tmp w) = Inr ()"
    and "removable E p \<Longrightarrow> files (snd (TempFile_exit E tmp w)) p = None"
  using assms by (auto simp: TempFile_exit_def TempFile_close_def io_defs os_defs)

lemma with_tmp_html_removes:
  assumes "mkstemp E ''bokeh'' ''.html'' w = (Inr (n, p), w0)"
  shows "fst (with_tmp_html E body w) = fst (body \<lparr>fd = Some n, path = Some p, closed = False\<rparr> w0)"
    and "removable E p \<Longrightarrow> files (snd (with_tmp_html E body w)) p = None"
proof -
  let ?tmp = "\<lparr>fd = Some n, path = Some p, closed = False\<rparr>"
  obtain r w' where b: "body ?tmp w0 = (r, w')" by (cases "body ?tmp w0")
  obtain w'' where x: "TempFile_exit E ?tmp w' = (Inr (), w'')"
    using TempFile_exit_removes(1)[of ?tmp n p E w'] by (cases "TempFile_exit E ?tmp w'") auto
  have eq: "with_tmp_html E body w = (r, w'')"
    using assms b x by (simp add: with_tmp_html_def tmp_html_def TempFile_init_def io_defs)
  show "fst (with_tmp_html E body w) = fst (body ?tmp w0)" by (simp add: eq b)
  show "files (snd (with_tmp_html E body w)) p = None" if "removable E p"
    using TempFile_exit_removes(2)[of ?tmp n p E w'] that by (simp add: eq x)
qed

lemma mkstemp_creates:
  assumes "mkstemp E pre suf w = (Inr (n, p), w0)"
  shows "files w p = None" and "files w0 p = Some []"
proof -
  from assms obtain c where
    c: "List.find (\<lambda>(n, p). files w p = None \<and> n \<notin> open_fds w) (mkstemp_candidates E pre suf) = Some c"
    by (auto simp: mkstemp_def split: option.splits)
  with assms have "c = (n, p)" by (auto simp: mkstemp_def split: prod.splits)
  with c show "files w p = None" by (auto simp: find_Some_iff)
  from assms c show "files w0 p = Some []" by (auto simp: mkstemp_def split: prod.splits)
qed

lemma bind_pure_snd: "snd (bind_io m (\<lambda>x w. (g x, w)) w) = snd (m w)"
  by (simp add: bind_io_def split: prod.splits sum.splits)

lemma bind_io_keeps:
  assumes "\<And>w. P w \<Longrightarrow> P (snd (m w))" and "\<And>x w. P w \<Longrightarrow> P (snd (f x w))" and "P w"
  shows "P (snd (bind_io m f w))"
proof (cases "m w")
  case (Pair r w')
  with assms(1)[OF assms(3)] have "P w'" by simp
  with Pair assms(2) show ?thesis by (cases r) (simp_all add: bind_io_def)
qed

lemma try_except_keeps:
  assumes "\<And>w. P w \<Longrightarrow> P (snd (m w))" and "\<And>e w. P w \<Longrightarrow> P (snd (h e w))" and "P w"
  shows "P (snd (try_except m handled h w))"
proof (cases "m w")
  case (Pair r w')
  with assms(1)[OF assms(3)] have "P w'" by simp
  with Pair assms(2) show ?thesis by (cases r) (simp_all add: try_except_def)
qed

lemma try_finally_keeps:
  assumes "\<And>w. P w \<Longrightarrow> P (snd (m w))" and "\<And>w. P w \<Longrightarrow> P (snd (fin w))" and "P w"
  shows "P (snd (try_finally m fin w))"
proof (cases "m w")
  case (Pair r w')
  with assms(1)[OF assms(3)] have "P w'" by simp
  with assms(2) have "P (snd (fin w'))" by simp
  with Pair show ?thesis by (cases "fin w'") (auto simp: try_finally_def split: sum.splits)
qed

lemma driver_call_files [simp]: "files (snd (driver_call ev op w)) = files w"
  by (simp add: driver_call_def split: prod.splits)

lemma execute_script_files [simp]: "files (snd (execute_script s op w)) = files w"
  by (simp add: execute_script_def)

lemma log_warning_files [simp]: "files (snd (log_warning msg w)) = files w"
  by (simp add: log_warning_def)

lemma log_console_files [simp]: "files (snd (log_console driver w)) = files w"
proof (cases "get_log driver ''browser'' (browser w)")
  case (Pair r d)
  then show ?thesis
    by (cases r) (simp_all add: log_console_read log_console_fails)
qed

lemma wait_until_render_complete_files [simp]:
  "files (snd (wait_until_render_complete driver timeout w)) = files w"
proof -
  have "files (snd (wait_until_render_complete driver timeout w)) = F" if "files w = F" for F
    using that unfolding wait_until_render_complete_def
    by (intro bind_io_keeps[where P = "\<lambda>w. files w = F"] try_except_keeps[where P = "\<lambda>w. files w = F"]
          try_finally_keeps[where P = "\<lambda>w. files w = F"])
       (simp_all add: return_io_def raise_io_def)
  then show ?thesis by simp
qed

lemma maximize_viewport_files [simp]: "files (snd (maximize_viewport driver w)) = files w"
proof -
  have "files (snd (maximize_viewport driver w)) = F" if "files w = F" for F
    using that unfolding maximize_viewport_def
    by (intro bind_io_keeps[where P = "\<lambda>w. files w = F"]) (simp_all split: prod.splits)
  then show ?thesis by simp
qed

lemma get_layout_html_files [simp]: "files (snd (get_layout_html E kwargs w)) = files w"
proof -
  have r: "files (snd (resize_layout kwargs w)) = files w" for w :: "('a, 'b) world"
    by (simp add: resize_layout_def io_defs warnings_warn_def Let_def split: layout.splits)
  have s: "files (snd (restore_layout x w)) = files w" for x and w :: "('a, 'b) world"
    by (simp add: restore_layout_def return_io_def split: option.splits prod.splits layout.splits)
  have "files (snd (get_layout_html E kwargs w)) = F" if "files w = F" for F
    using that unfolding get_layout_html_def
    by (intro bind_io_keeps[where P = "\<lambda>w. files w = F"] try_finally_keeps[where P = "\<lambda>w. files w = F"])
       (simp_all add: r s)
  then show ?thesis by simp
qed

lemma write_file_keeps: "files w p \<noteq> None \<Longrightarrow> files (snd (write_file E q s w)) p \<noteq> None"
  by (simp add: write_file_def)

lemma get_svgs_body_keeps:
  assumes "files w p \<noteq> None"
  shows "files (snd ((bind_io (get_layout_html E kwargs) (\<lambda>html.
       bind_io (bind_io (TempFile_path tmp) (\<lambda>p. write_file E p html)) (\<lambda>_.
       bind_io (get_driver E driver) (\<lambda>web_driver.
       bind_io (bind_io (TempFile_path tmp) (\<lambda>p.
                  driver_call (Get (''file:///'' @ p)) (get_url web_driver (''file:///'' @ p)))) (\<lambda>_.
       bind_io (wait_until_render_complete web_driver timeout) (\<lambda>_.
       execute_script SVG_SCRIPT (svg_script_js web_driver))))))) w)) p \<noteq> None"
  using assms
  by (intro bind_io_keeps[where P = "\<lambda>w. files w p \<noteq> None"])
     (simp_all add: write_file_keeps TempFile_path_def get_driver_def return_io_def raise_io_def
        split: option.splits)

lemma get_screenshot_body_keeps:
  assumes "files w p \<noteq> None"
  shows "files (snd ((bind_io (get_layout_html E kwargs) (\<lambda>html.
          bind_io (bind_io (TempFile_path tmp) (\<lambda>p. write_file E p html)) (\<lambda>_.
          bind_io (get_driver E driver) (\<lambda>web_driver.
          bind_io (driver_call MaximizeWindow (maximize_window web_driver)) (\<lambda>_.
          bind_io (bind_io (TempFile_path tmp) (\<lambda>p.
                     driver_call (Get (''file:///'' @ p)) (get_url web_driver (''file:///'' @ p)))) (\<lambda>_.
          bind_io (wait_until_render_complete web_driver timeout) (\<lambda>_.
          bind_io (maximize_viewport web_driver) (\<lambda>_.
          driver_call GetScreenshotAsPng (screenshot_png web_driver))))))))) w)) p \<noteq> None"
  using assms
  by (intro bind_io_keeps[where P = "\<lambda>w. files w p \<noteq> None"])
     (simp_all add: write_file_keeps TempFile_path_def get_driver_def return_io_def raise_io_def
        split: option.splits)

lemma TempFile_exit_keeps:
  assumes "fd tmp = Some n" "path tmp = Some p" "\<not> closed tmp" "\<not> removable E p"
  shows "files (snd (TempFile_exit E tmp w)) p = files w p"
  using assms by (auto simp: TempFile_exit_def TempFile_close_def io_defs os_defs)

lemma with_tmp_html_keeps:
  assumes "mkstemp E ''bokeh'' ''.html'' w = (Inr (n, p), w0)"
      and "\<not> removable E p"
      and "\<And>w. files w p \<noteq> None \<Longrightarrow> files (snd (body \<lparr>fd = Some n, path = Some p, closed = False\<rparr> w)) p \<noteq> None"
  shows "files (snd (with_tmp_html E body w)) p \<noteq> None"
proof -
  let ?tmp = "\<lparr>fd = Some n, path = Some p, closed = False\<rparr>"
  obtain r w' where b: "body ?tmp w0 = (r, w')" by (cases "body ?tmp w0")
  from mkstemp_creates(2)[OF assms(1)] assms(3)[of w0] b have "files w' p \<noteq> None" by simp
  moreover have "files (snd (TempFile_exit E ?tmp w')) p = files w' p"
    by (rule TempFile_exit_keeps[of ?tmp n p E]) (simp_all add: assms(2))
  moreover have "with_tmp_html E body w =
     (case TempFile_exit E ?tmp w' of (Inl e, w'') \<Rightarrow> (Inl e, w'') | (Inr u, w'') \<Rightarrow> (r, w''))"
    using assms(1) b by (simp add: with_tmp_html_def tmp_html_def TempFile_init_def io_defs)
  ultimately show ?thesis by (auto split: prod.splits sum.splits)
qed

text \<open>
  Claim C4. The file that \<^verbatim>\<open>mkstemp\<close> has created for a call of
  \<open>get_screenshot_as_png\<close> or of \<open>get_svgs\<close> does not exist after the call, whether the
  call returns or raises and whatever the result is, provided the operating system
  lets the file be unlinked. When it does not, \<^verbatim>\<open>close\<close> drops the error and the file
  is still there after the call.
\<close>

theorem temp_file_removed:
  assumes "mkstemp E ''bokeh'' ''.html'' w = (Inr (n, p), w0)"
  shows "files w0 p = Some []
       \<and> (files (snd (get_screenshot_as_png E driver timeout kwargs w)) p = None) = removable E p
       \<and> (files (snd (get_svgs E driver timeout kwargs w)) p = None) = removable E p"
proof (cases "removable E p")
  case True
  have "files (snd (get_svgs E driver timeout kwargs w)) p = None"
    unfolding get_svgs_def by (rule with_tmp_html_removes(2)[OF assms True])
  moreover have "files (snd (get_screenshot_as_png E driver timeout kwargs w)) p = None"
    unfolding get_screenshot_as_png_def bind_pure_snd
    by (rule with_tmp_html_removes(2)[OF assms True])
  ultimately show ?thesis using mkstemp_creates(2)[OF assms] True by simp
next
  case False
  have "files (snd (get_svgs E driver timeout kwargs w)) p \<noteq> None"
    unfolding get_svgs_def
    by (rule with_tmp_html_keeps[OF assms False]) (rule get_svgs_body_keeps)
  moreover have "files (snd (get_screenshot_as_png E driver timeout kwargs w)) p \<noteq> None"
    unfolding get_screenshot_as_png_def bind_pure_snd
    by (rule with_tmp_html_keeps[OF assms False]) (rule get_screenshot_body_keeps)
  ultimately show ?thesis using mkstemp_creates(2)[OF assms] False by simp
qed

theorem temp_file_removed_witness:
  "fst (mkstemp (example_env (\<lambda>p. True) (\<lambda>p. True)) ''bokeh'' ''.html'' (example_world (NonPlot ())))
     = Inr (3, ''/tmp/bokeh0001.html'')
   \<and> removable (example_env (\<lambda>p. True) (\<lambda>p. True)) ''/tmp/bokeh0001.html''
   \<and> fst (get_svgs (example_env (\<lambda>p. True) (\<lambda>p. True)) (Some (example_driver 1000 0 [] ''png'' (Inr [])))
            1 Map.empty (example_world (NonPlot ()))) = Inl (RuntimeError NOT_LOADED_MESSAGE)
   \<and> files (snd (get_svgs (example_env (\<lambda>p. True) (\<lambda>p. True)) (Some (example_driver 1000 0 [] ''png'' (Inr [])))
            1 Map.empty (example_world (NonPlot ())))) ''/tmp/bokeh0001.html'' = None
   \<and> fst (get_screenshot_as_png (example_env (\<lambda>p. True) (\<lambda>p. True)) (Some (example_driver 0 0 [] ''png'' (Inr [])))
            1 Map.empty (example_world (NonPlot ())))
       = Inr \<lparr>img_width = 3, img_height = 1, img_pixels = ''png''\<rparr>
   \<and> files (snd (get_screenshot_as_png (example_env (\<lambda>p. True) (\<lambda>p. True))
            (Some (example_driver 0 0 [] ''png'' (Inr []))) 1 Map.empty (example_world (NonPlot ()))))
         ''/tmp/bokeh0001.html'' = None"
proof -
  let ?E = "example_env (\<lambda>p. True) (\<lambda>p. True)"
  let ?W = "example_world (NonPlot ())"
  let ?m = "mkstemp ?E ''bokeh'' ''.html'' ?W"
  have m: "fst ?m = Inr (3, ''/tmp/bokeh0001.html'')" by (simp add: eval_defs)
  then have h: "?m = (Inr (3, ''/tmp/bokeh0001.html''), snd ?m)" by (simp add: prod_eq_iff)
  have r: "removable ?E ''/tmp/bokeh0001.html''" by (simp add: example_env_def)
  have e: "fst (get_svgs ?E (Some (example_driver 1000 0 [] ''png'' (Inr []))) 1 Map.empty ?W)
             = Inl (RuntimeError NOT_LOADED_MESSAGE)"
    "fst (get_screenshot_as_png ?E (Some (example_driver 0 0 [] ''png'' (Inr []))) 1 Map.empty ?W)
       = Inr \<lparr>img_width = 3, img_height = 1, img_pixels = ''png''\<rparr>"
    by (simp_all add: eval_defs)
  from temp_file_removed[OF h, of "Some (example_driver 1000 0 [] ''png'' (Inr []))" 1 Map.empty]
    temp_file_removed[OF h, of "Some (example_driver 0 0 [] ''png'' (Inr []))" 1 Map.empty]
    m r e
  show ?thesis by simp
qed

text \<open>
  The file is not gone on every exit path: when the operating system refuses to
  unlink it, \<^verbatim>\<open>close\<close> drops the \<^verbatim>\<open>OSError\<close>, and the call returns, or raises its own
  error, with the file still in place.
\<close>

theorem temp_file_left_counterexample:
  "fst (get_svgs (example_env (\<lambda>p. True) (\<lambda>p. False)) (Some (example_driver 0 0 [''<svg/>''] ''png'' (Inr [])))
          1 Map.empty (example_world (NonPlot ()))) = Inr [''<svg/>'']
   \<and> files (snd (get_svgs (example_env (\<lambda>p. True) (\<lambda>p. False))
          (Some (example_driver 0 0 [''<svg/>''] ''png'' (Inr []))) 1 Map.empty (example_world (NonPlot ()))))
        ''/tmp/bokeh0001.html'' = Some ''<html></html>''
   \<and> fst (get_screenshot_as_png (example_env (\<lambda>p. True) (\<lambda>p. False))
          (Some (example_driver 1000 0 [] ''png'' (Inr []))) 1 Map.empty (example_world (NonPlot ())))
        = Inl (RuntimeError NOT_LOADED_MESSAGE)
   \<and> files (snd (get_screenshot_as_png (example_env (\<lambda>p. True) (\<lambda>p. False))
          (Some (example_driver 1000 0 [] ''png'' (Inr []))) 1 Map.empty (example_world (NonPlot ()))))
        ''/tmp/bokeh0001.html'' = Some ''<html></html>''"
  by (simp add: eval_defs)

section \<open>Returned paths\<close>

text \<open>
  Claim C1. A path returned by \<open>export_png\<close> is absolute: it is \<^verbatim>\<open>abspath\<close> of the
  given (or default) filename, and the one file the function has written after the
  screenshot is the encoded image under that filename. A list returned by
  \<open>export_svgs\<close> is exactly the list of the names of the files the function has
  written after \<open>get_svgs\<close>, one for each SVG string and in their order. It starts with
  the given (or default) filename, and every name in it is absolute if and only if
  that filename is absolute: the names are returned as they were formed and are not
  made absolute.
\<close>

theorem export_paths:
  fixes E :: "('d, 'x) env" and w :: "('d, 'x) world" and filename :: "string option"
    and height width :: "int option" and webdriver :: "'d WebDriver option" and timeout :: int
  defines "png \<equiv> export_png E filename height width webdriver timeout w"
      and "svg \<equiv> export_svgs E filename height width webdriver timeout w"
      and "fp \<equiv> (case filename of None \<Rightarrow> default_filename E ''png'' | Some f \<Rightarrow> f)"
      and "fs \<equiv> (case filename of None \<Rightarrow> default_filename E ''svg'' | Some f \<Rightarrow> f)"
  shows "(\<forall>p. fst png = Inr p \<longrightarrow>
            isabs p \<and> p = abspath E fp
            \<and> (\<exists>img w1 fmt data.
                 get_screenshot_as_png E webdriver timeout [''height'' \<mapsto> height, ''width'' \<mapsto> width] w
                   = (Inr img, w1)
                 \<and> image_format E fp = Some fmt \<and> image_encode E fmt img = Inr data
                 \<and> writes (snd png) = writes w1 @ [(fp, data)]))
       \<and> (\<forall>names. fst svg = Inr (Some names) \<longrightarrow>
            (\<exists>svgs w1.
                 get_svgs E webdriver timeout [''height'' \<mapsto> height, ''width'' \<mapsto> width] w = (Inr svgs, w1)
                 \<and> svgs \<noteq> [] \<and> length names = length svgs
                 \<and> writes (snd svg) = writes w1 @ zip names svgs)
            \<and> hd names = fs
            \<and> (\<forall>n\<in>set names. isabs n = isabs fs))"
proof -
  have png: "isabs p \<and> p = abspath E fp
            \<and> (\<exists>img w1 fmt data.
                 get_screenshot_as_png E webdriver timeout [''height'' \<mapsto> height, ''width'' \<mapsto> width] w
                   = (Inr img, w1)
                 \<and> image_format E fp = Some fmt \<and> image_encode E fmt img = Inr data
                 \<and> writes (snd png) = writes w1 @ [(fp, data)])"
    if "fst png = Inr p" for p
  proof -
    obtain r w1 where g: "get_screenshot_as_png E webdriver timeout [''height'' \<mapsto> height, ''width'' \<mapsto> width] w = (r, w1)"
      by (cases "get_screenshot_as_png E webdriver timeout [''height'' \<mapsto> height, ''width'' \<mapsto> width] w")
    from that g obtain img where img: "r = Inr img" "\<not> (img_width img = 0 \<or> img_height img = 0)"
      by (cases r) (auto simp: png_def export_png_def io_defs Let_def split: if_splits)
    with g have eq: "png = bind_io (Image_save E img fp) (\<lambda>_. return_io (abspath E fp)) w1"
      by (simp add: png_def fp_def export_png_def bind_io_def Let_def)
    obtain r2 w2 where sv: "Image_save E img fp w1 = (r2, w2)" by (cases "Image_save E img fp w1")
    from that eq sv have r2: "r2 = Inr ()" and p: "p = abspath E fp" and w2: "snd png = w2"
      by (cases r2; simp add: io_defs)+
    from sv[unfolded r2] obtain fmt data where
      f: "image_format E fp = Some fmt" "image_encode E fmt img = Inr data"
        "w2 = w1\<lparr>files := (files w1)(fp \<mapsto> data), writes := writes w1 @ [(fp, data)]\<rparr>"
      by (auto simp: Image_save_def write_file_def raise_io_def split: option.splits if_splits sum.splits)
    then have "writes (snd png) = writes w1 @ [(fp, data)]" by (simp add: w2)
    with g img(1) f(1,2) p show ?thesis by (auto simp: isabs_abspath)
  qed
  have svg: "(\<exists>svgs w1.
                 get_svgs E webdriver timeout [''height'' \<mapsto> height, ''width'' \<mapsto> width] w = (Inr svgs, w1)
                 \<and> svgs \<noteq> [] \<and> length names = length svgs
                 \<and> writes (snd svg) = writes w1 @ zip names svgs)
            \<and> hd names = fs
            \<and> (\<forall>n\<in>set names. isabs n = isabs fs)"
    if "fst svg = Inr (Some names)" for names
  proof -
    obtain r w1 where g: "get_svgs E webdriver timeout [''height'' \<mapsto> height, ''width'' \<mapsto> width] w = (r, w1)"
      by (cases "get_svgs E webdriver timeout [''height'' \<mapsto> height, ''width'' \<mapsto> width] w")
    from that g obtain svgs where svgs: "r = Inr svgs" "svgs \<noteq> []"
      by (cases r) (auto simp: svg_def export_svgs_def io_defs Let_def log_warning_def split: if_splits)
    obtain r2 w2 where l: "export_svgs_loop E 0 fs [] svgs w1 = (r2, w2)"
      by (cases "export_svgs_loop E 0 fs [] svgs w1")
    from g svgs l have "svg = (case r2 of Inl e \<Rightarrow> Inl e | Inr filenames \<Rightarrow> Inr (Some filenames), w2)"
      by (cases r2) (simp_all add: svg_def fs_def export_svgs_def io_defs Let_def)
    with that have x: "r2 = Inr names" "snd svg = w2"
      by (cases r2; simp)+
    note l' = l[unfolded x(1)]
    from export_svgs_loop_result[OF l']
    have n: "names = loop_filenames 0 fs svgs" "writes w2 = writes w1 @ zip names svgs" by simp_all
    from n(1) have len: "length names = length svgs" by simp
    from n(1) svgs(2) have hd: "hd names = fs"
      by (cases svgs) (simp_all add: next_filename_def)
    have "isabs n = isabs fs" if "n \<in> set names" for n
      using loop_filenames_isabs[OF export_svgs_loop_written[OF l'], of n] that n(1) by simp
    with g svgs len n(2) hd show ?thesis by (simp add: x(2))
  qed
  from png svg show ?thesis by blast
qed

theorem export_paths_witness:
  "fst (export_png (example_env (\<lambda>p. True) (\<lambda>p. True)) (Some ''plot.png'') None None
          (Some (example_driver 0 0 [] ''png'' (Inr []))) 1 (example_world (NonPlot ())))
     = Inr ''/work/plot.png''
   \<and> isabs ''/work/plot.png''
   \<and> fst (export_svgs (example_env (\<lambda>p. True) (\<lambda>p. True)) (Some ''/work/out/f.svg'') None None
          (Some (example_driver 0 0 [''<svg>a</svg>'', ''<svg>b</svg>''] ''png'' (Inr []))) 1
          (example_world (NonPlot ())))
     = Inr (Some [''/work/out/f.svg'', ''/work/out/f_1.svg''])
   \<and> isabs ''/work/out/f.svg'' = isabs ''/work/out/f.svg''
   \<and> isabs ''/work/out/f_1.svg'' = isabs ''/work/out/f.svg''
   \<and> isabs ''/work/out/f.svg''"
proof -
  let ?E = "example_env (\<lambda>p. True) (\<lambda>p. True)"
  let ?W = "example_world (NonPlot ())"
  let ?svgs = "[''<svg>a</svg>'', ''<svg>b</svg>'']"
  let ?png = "export_png ?E (Some ''plot.png'') None None (Some (example_driver 0 0 [] ''png'' (Inr []))) 1 ?W"
  let ?svg = "export_svgs ?E (Some ''/work/out/f.svg'') None None (Some (example_driver 0 0 ?svgs ''png'' (Inr []))) 1 ?W"
  have e: "fst ?png = Inr ''/work/plot.png''" "fst ?svg = Inr (Some [''/work/out/f.svg'', ''/work/out/f_1.svg''])"
    by (simp_all add: eval_defs export_svgs_loop.simps next_filename_def abspath_def getcwd_def normpath_def
          join_def norm_step_def py_find_def slice_to_def slice_from_def)
  have "isabs ''/work/plot.png''"
    using export_paths[where E = ?E and filename = "Some ''plot.png''" and height = None and width = None
        and webdriver = "Some (example_driver 0 0 [] ''png'' (Inr []))" and timeout = 1 and w = ?W,
        THEN conjunct1, rule_format, OF e(1)]
    by (rule conjunct1)
  moreover
  have "\<forall>n\<in>set [''/work/out/f.svg'', ''/work/out/f_1.svg''].
          isabs n = isabs (case Some ''/work/out/f.svg'' of None \<Rightarrow> default_filename ?E ''svg'' | Some f \<Rightarrow> f)"
    using export_paths[where E = ?E and filename = "Some ''/work/out/f.svg''" and height = None and width = None
        and webdriver = "Some (example_driver 0 0 ?svgs ''png'' (Inr []))" and timeout = 1 and w = ?W,
        THEN conjunct2, rule_format, OF e(2)]
    by blast
  then have "isabs ''/work/out/f.svg'' = isabs ''/work/out/f.svg''"
    "isabs ''/work/out/f_1.svg'' = isabs ''/work/out/f.svg''" by simp_all
  ultimately show ?thesis using e by simp
qed

text \<open>
  Not every returned path is absolute: given a relative filename, \<open>export_svgs\<close>
  returns that filename.
\<close>

theorem export_svgs_relative_counterexample:
  "fst (export_svgs (example_env (\<lambda>p. True) (\<lambda>p. True)) (Some ''plot.svg'') None None
          (Some (example_driver 0 0 [''<svg/>''] ''png'' (Inr []))) 1 (example_world (NonPlot ())))
     = Inr (Some [''plot.svg''])
   \<and> isabs ''plot.svg'' = False"
  by (simp add: eval_defs export_svgs_loop.simps)

section \<open>Resizing a plot for the export\<close>

text \<open>
  Claim C9. For a \<open>Plot\<close> and a call of \<open>get_layout_html\<close> with a height or a width,
  the object is the same after the call as before it: \<open>plot_height\<close> and \<open>plot_width\<close>
  have their old values and no other field (and nothing else in the world) has
  changed, whether \<^verbatim>\<open>file_html\<close> returns or raises. During the call \<^verbatim>\<open>file_html\<close> sees
  the plot with the requested size.
\<close>

theorem get_layout_html_restores_size:
  assumes "layout w = PlotObj obj"
      and "kwargs_get kwargs ''height'' \<noteq> None \<or> kwargs_get kwargs ''width'' \<noteq> None"
  shows "layout (snd (get_layout_html E kwargs w)) = PlotObj obj \<and>
         snd (get_layout_html E kwargs w) = w \<and>
         fst (get_layout_html E kwargs w) =
           file_html E (PlotObj (obj\<lparr>plot_height := kwargs_get_default kwargs ''height'' (plot_height obj),
                                       plot_width := kwargs_get_default kwargs ''width'' (plot_width obj)\<rparr>))"
proof -
  have "w\<lparr>layout := PlotObj obj\<rparr> = w" using assms(1) by (cases w) simp
  then show ?thesis
    using assms by (simp add: get_layout_html_def resize_layout_def restore_layout_def io_defs Let_def)
qed

theorem get_layout_html_restores_size_witness:
  "layout (example_world (PlotObj example_plot)) = PlotObj example_plot
   \<and> kwargs_get [''height'' \<mapsto> Some 0] ''height'' = Some 0
   \<and> get_layout_html (example_env (\<lambda>p. True) (\<lambda>p. True)) [''height'' \<mapsto> Some 0]
        (example_world (PlotObj example_plot))
      = (Inl (ValueError ''empty plot''), example_world (PlotObj example_plot))
   \<and> fst (get_layout_html (example_env (\<lambda>p. True) (\<lambda>p. True)) [''width'' \<mapsto> Some 300]
        (example_world (PlotObj example_plot))) = Inr ''<html></html>''
   \<and> layout (snd (get_layout_html (example_env (\<lambda>p. True) (\<lambda>p. True)) [''width'' \<mapsto> Some 300]
        (example_world (PlotObj example_plot)))) = PlotObj example_plot"
proof -
  let ?W = "example_world (PlotObj example_plot)"
  let ?E = "example_env (\<lambda>p. True) (\<lambda>p. True)"
  have h1: "layout ?W = PlotObj example_plot" by (simp add: example_world_def)
  have h2: "kwargs_get [''height'' \<mapsto> Some 0] ''height'' \<noteq> None
            \<or> kwargs_get [''height'' \<mapsto> Some 0] ''width'' \<noteq> None"
    by (simp add: kwargs_get_def)
  have h3: "kwargs_get [''width'' \<mapsto> Some 300] ''height'' \<noteq> None
            \<or> kwargs_get [''width'' \<mapsto> Some 300] ''width'' \<noteq> None"
    by (simp add: kwargs_get_def)
  from get_layout_html_restores_size[OF h1 h2, of ?E] get_layout_html_restores_size[OF h1 h3, of ?E]
  show ?thesis
    by (simp add: prod_eq_iff kwargs_get_def kwargs_get_default_def example_env_def example_plot_def
          example_world_def)
qed

section \<open>Exports without content\<close>

text \<open>
  Claim C2. When \<open>get_svgs\<close> returns the empty list, \<open>export_svgs\<close> does not raise, and
  the only thing it does after \<open>get_svgs\<close> is to log one warning: it writes no file.
  What it returns is \<^verbatim>\<open>None\<close>, the value of its bare \<^verbatim>\<open>return\<close>, and not a list: in
  particular not the empty list of filenames that its docstring
  (\<^verbatim>\<open>Returns: filenames (list(str))\<close>) announces for a call that saved no file.
\<close>

theorem export_svgs_no_svgs:
  assumes "get_svgs E webdriver timeout [''height'' \<mapsto> height, ''width'' \<mapsto> width] w = (Inr [], w1)"
  shows "export_svgs E filename height width webdriver timeout w =
           (Inr None, w1\<lparr>log_records := log_records w1 @ [NO_SVG_WARNING]\<rparr>)
         \<and> fst (export_svgs E filename height width webdriver timeout w) \<noteq> Inr (Some [])"
  using assms by (simp add: export_svgs_def io_defs log_warning_def)

theorem export_svgs_no_svgs_witness:
  "fst (get_svgs (example_env (\<lambda>p. True) (\<lambda>p. True)) (Some (example_driver 0 0 [] ''png'' (Inr [])))
         5 [''height'' \<mapsto> None, ''width'' \<mapsto> None] (example_world (NonPlot ()))) = Inr []
   \<and> fst (export_svgs (example_env (\<lambda>p. True) (\<lambda>p. True)) (Some ''plot.svg'') None None
            (Some (example_driver 0 0 [] ''png'' (Inr []))) 5 (example_world (NonPlot ()))) = Inr None
   \<and> log_records (snd (export_svgs (example_env (\<lambda>p. True) (\<lambda>p. True)) (Some ''plot.svg'') None None
            (Some (example_driver 0 0 [] ''png'' (Inr []))) 5 (example_world (NonPlot ())))) = [NO_SVG_WARNING]
   \<and> writes (snd (export_svgs (example_env (\<lambda>p. True) (\<lambda>p. True)) (Some ''plot.svg'') None None
            (Some (example_driver 0 0 [] ''png'' (Inr []))) 5 (example_world (NonPlot ()))))
       = [(''/tmp/bokeh0001.html'', ''<html></html>'')]
   \<and> files (snd (export_svgs (example_env (\<lambda>p. True) (\<lambda>p. True)) (Some ''plot.svg'') None None
            (Some (example_driver 0 0 [] ''png'' (Inr []))) 5 (example_world (NonPlot ())))) ''plot.svg'' = None"
proof -
  let ?E = "example_env (\<lambda>p. True) (\<lambda>p. True)"
  let ?D = "Some (example_driver 0 0 [] ''png'' (Inr []))"
  let ?W = "example_world (NonPlot ())"
  let ?g = "get_svgs ?E ?D 5 [''height'' \<mapsto> None, ''width'' \<mapsto> None] ?W"
  have g: "fst ?g = Inr []" "log_records (snd ?g) = []"
    "writes (snd ?g) = [(''/tmp/bokeh0001.html'', ''<html></html>'')]"
    "files (snd ?g) ''plot.svg'' = None"
    by (simp_all add: eval_defs)
  then have "?g = (Inr [], snd ?g)" by (simp add: prod_eq_iff)
  from export_svgs_no_svgs[OF this, of "Some ''plot.svg''"] g show ?thesis by simp
qed

text \<open>
  Claim C3. When the screenshot has width zero or height zero, \<open>export_png\<close> raises
  the \<^verbatim>\<open>ValueError\<close> and leaves the world as \<open>get_screenshot_as_png\<close> has left it: the
  image is not saved and no file is written.
\<close>

theorem export_png_empty_image:
  assumes "get_screenshot_as_png E webdriver timeout [''height'' \<mapsto> height, ''width'' \<mapsto> width] w = (Inr img, w1)"
      and "img_width img = 0 \<or> img_height img = 0"
  shows "export_png E filename height width webdriver timeout w =
           (Inl (ValueError ''unable to save an empty image''), w1)"
  using assms by (auto simp add: export_png_def io_defs Let_def)

theorem export_png_empty_image_witness:
  "fst (get_screenshot_as_png (example_env (\<lambda>p. True) (\<lambda>p. True)) (Some (example_driver 0 0 [] '''' (Inr [])))
         5 [''height'' \<mapsto> None, ''width'' \<mapsto> None] (example_world (NonPlot ())))
     = Inr \<lparr>img_width = 0, img_height = 1, img_pixels = ''''\<rparr>
   \<and> fst (export_png (example_env (\<lambda>p. True) (\<lambda>p. True)) (Some ''plot.png'') None None
            (Some (example_driver 0 0 [] '''' (Inr []))) 5 (example_world (NonPlot ())))
       = Inl (ValueError ''unable to save an empty image'')
   \<and> writes (snd (export_png (example_env (\<lambda>p. True) (\<lambda>p. True)) (Some ''plot.png'') None None
            (Some (example_driver 0 0 [] '''' (Inr []))) 5 (example_world (NonPlot ()))))
       = [(''/tmp/bokeh0001.html'', ''<html></html>'')]
   \<and> files (snd (export_png (example_env (\<lambda>p. True) (\<lambda>p. True)) (Some ''plot.png'') None None
            (Some (example_driver 0 0 [] '''' (Inr []))) 5 (example_world (NonPlot ())))) ''plot.png'' = None"
proof -
  let ?E = "example_env (\<lambda>p. True) (\<lambda>p. True)"
  let ?D = "Some (example_driver 0 0 [] '''' (Inr []))"
  let ?W = "example_world (NonPlot ())"
  let ?g = "get_screenshot_as_png ?E ?D 5 [''height'' \<mapsto> None, ''width'' \<mapsto> None] ?W"
  let ?img = "\<lparr>img_width = 0, img_height = 1, img_pixels = ''''\<rparr>"
  have g: "fst ?g = Inr ?img"
    "writes (snd ?g) = [(''/tmp/bokeh0001.html'', ''<html></html>'')]"
    "files (snd ?g) ''plot.png'' = None"
    by (simp_all add: eval_defs)
  then have "?g = (Inr ?img, snd ?g)" by (simp add: prod_eq_iff)
  from export_png_empty_image[OF this, of "Some ''plot.png''"] g show ?thesis by simp
qed

end
